theory Spec2Isabelle
  imports Complex_Main "HOL-Library.Word"
begin

section \<open>Python values: bytes, strings, slices\<close>

text \<open>
  A Python \<open>bytes\<close> object is a list of 8-bit words. A Python \<open>str\<close> is a list of
  Unicode code points (\<open>len\<close> counts code points), so a decoded title may hold code
  points above 255. String literals of the source are written with \<open>lit\<close>.
\<close>

type_synonym byte = "8 word"
type_synonym bytes = "byte list"
type_synonym pystr = "nat list"

definition lit :: "string \<Rightarrow> pystr" where
  "lit s = map of_char s"

text \<open>\<open>xs[a:b]\<close> for \<open>0 \<le> a \<le> b\<close>: Python clamps both ends to the length.\<close>

definition slice :: "'a list \<Rightarrow> nat \<Rightarrow> nat \<Rightarrow> 'a list" where
  "slice xs a b = take (b - a) (drop a xs)"

text \<open>
  The attributes of a \<open>Channel\<close> are untyped in the source: the binary path stores
  integers in \<open>major_ch\<close> \<dots> \<open>prog_num\<close>, the XML path stores whatever
  \<open>nodeValue\<close> returns (a string or \<open>None\<close>).
\<close>

datatype pyval = PyNone | PyInt int | PyStr pystr

section \<open>Exceptions\<close>

text \<open>
  \<open>ParseException msg context\<close> is the source's own exception (a message and a list
  of context strings). The other constructors are the interpreter's and the libraries'
  exceptions that the code can let escape; their messages are not modelled.
\<close>

datatype error =
    ParseException pystr "pystr list"
  | TypeError
  | StructError
  | UnicodeDecodeError
  | AttributeError
  | IndexError

text \<open>
  \<open>ContextException.__init__(self, msg, context=[])\<close> stores \<open>list(context)\<close>.
  The callers in this file pass a \<^emph>\<open>string\<close> as \<open>context\<close>, and \<open>list\<close> of a
  string is the list of its one-character strings.
\<close>

definition list_of_str :: "pystr \<Rightarrow> pystr list" where
  "list_of_str s = map (\<lambda>c. [c]) s"

definition add_context :: "error \<Rightarrow> pystr \<Rightarrow> error" where
  "add_context e c = (case e of ParseException msg ctx \<Rightarrow> ParseException msg (ctx @ [c]) | _ \<Rightarrow> e)"

definition on_ok :: "error + 'a \<Rightarrow> ('a \<Rightarrow> error + 'b) \<Rightarrow> error + 'b" where
  "on_ok m f = (case m of Inl e \<Rightarrow> Inl e | Inr x \<Rightarrow> f x)"

section \<open>Formatting: \<open>%d\<close>, \<open>%04x\<close>, \<open>repr\<close> of bytes\<close>

definition digit_char :: "nat \<Rightarrow> nat" where
  "digit_char d = (if d < 10 then 48 + d else 87 + d)"

function dec_nat :: "nat \<Rightarrow> pystr" where
  "dec_nat n = (if n < 10 then [digit_char n] else dec_nat (n div 10) @ [digit_char (n mod 10)])"
  by pat_completeness auto
termination
  by (relation "measure id") auto

declare dec_nat.simps [simp del]

function hex_nat :: "nat \<Rightarrow> pystr" where
  "hex_nat n = (if n < 16 then [digit_char n] else hex_nat (n div 16) @ [digit_char (n mod 16)])"
  by pat_completeness auto
termination
  by (relation "measure id") auto

declare hex_nat.simps [simp del]

text \<open>\<open>'%d' % i\<close> for an integer \<open>i\<close>: decimal digits, a minus sign, no padding.\<close>

definition dec_int :: "int \<Rightarrow> pystr" where
  "dec_int i = (if i < 0 then 45 # dec_nat (nat (- i)) else dec_nat (nat i))"

text \<open>\<open>'%04x' % i\<close> for \<open>i \<ge> 0\<close>: lower-case hexadecimal, zero-padded to width 4.\<close>

definition hex04 :: "int \<Rightarrow> pystr" where
  "hex04 i = (let h = hex_nat (nat i) in replicate (4 - length h) 48 @ h)"

text \<open>\<open>'%d' % v\<close> on an attribute: a \<open>TypeError\<close> unless \<open>v\<close> is a number.\<close>

definition fmt_d :: "pyval \<Rightarrow> error + pystr" where
  "fmt_d v = (case v of PyInt i \<Rightarrow> Inr (dec_int i) | _ \<Rightarrow> Inl TypeError)"

text \<open>
  \<open>repr\<close> of a \<open>bytes\<close> object: \<open>b'...'\<close>, in double quotes when the value holds a
  single quote and no double quote; the quote and the backslash are escaped with a
  backslash, tab, newline and carriage return as \<open>\t\<close>, \<open>\n\<close>, \<open>\r\<close>, every other byte
  outside 32..126 as \<open>\xNN\<close>.
\<close>

definition repr_byte :: "nat \<Rightarrow> nat \<Rightarrow> pystr" where
  "repr_byte q c =
     (if c = q then [92, c]
      else if c = 92 then [92, c]
      else if c = 9 then [92, 116]
      else if c = 10 then [92, 110]
      else if c = 13 then [92, 114]
      else if c < 32 then [92, 120, digit_char (c div 16), digit_char (c mod 16)]
      else if 127 \<le> c then [92, 120, digit_char (c div 16), digit_char (c mod 16)]
      else [c])"

definition repr_bytes :: "bytes \<Rightarrow> pystr" where
  "repr_bytes bs =
     (let cs = map unat bs;
          q = (if 39 \<in> set cs \<and> 34 \<notin> set cs then 34 else 39)
      in 98 # q # concat (map (repr_byte q) cs) @ [q])"

section \<open>\<open>struct.unpack('<H', \<dots>)\<close> and \<open>bytes.decode('utf-8')\<close>\<close>

text \<open>
  \<open>_getint(buf, offset)\<close>: the 16-bit little-endian unsigned at \<open>offset\<close>.
  \<open>struct.unpack\<close> raises \<open>struct.error\<close> unless the slice has exactly two bytes.
\<close>

definition getint :: "bytes \<Rightarrow> nat \<Rightarrow> error + int" where
  "getint buf offset =
     (case slice buf offset (offset + 2) of
        [b0, b1] \<Rightarrow> Inr (uint b0 + 256 * uint b1)
      | _ \<Rightarrow> Inl StructError)"

text \<open>
  Strict UTF-8 decoding, on the byte values: the shortest form only, no surrogates,
  nothing above U+10FFFF. \<open>None\<close> is Python's \<open>UnicodeDecodeError\<close>.
\<close>

definition is_cont :: "nat \<Rightarrow> bool" where
  "is_cont b = (128 \<le> b \<and> b < 192)"

fun utf8 :: "nat list \<Rightarrow> pystr option" where
  "utf8 [] = Some []"
| "utf8 (b0 # bs) =
     (if b0 < 128 then map_option ((#) b0) (utf8 bs)
      else if 194 \<le> b0 \<and> b0 < 224 then
        (case bs of
           b1 # r \<Rightarrow>
             if is_cont b1
             then map_option ((#) ((b0 - 192) * 64 + (b1 - 128))) (utf8 r)
             else None
         | _ \<Rightarrow> None)
      else if 224 \<le> b0 \<and> b0 < 240 then
        (case bs of
           b1 # b2 # r \<Rightarrow>
             if (if b0 = 224 then 160 else 128) \<le> b1 \<and> b1 < (if b0 = 237 then 160 else 192)
                \<and> is_cont b2
             then map_option ((#) ((b0 - 224) * 4096 + (b1 - 128) * 64 + (b2 - 128))) (utf8 r)
             else None
         | _ \<Rightarrow> None)
      else if 240 \<le> b0 \<and> b0 < 245 then
        (case bs of
           b1 # b2 # b3 # r \<Rightarrow>
             if (if b0 = 240 then 144 else 128) \<le> b1 \<and> b1 < (if b0 = 244 then 144 else 192)
                \<and> is_cont b2 \<and> is_cont b3
             then map_option
                    ((#) ((b0 - 240) * 262144 + (b1 - 128) * 4096 + (b2 - 128) * 64 + (b3 - 128)))
                    (utf8 r)
             else None
         | _ \<Rightarrow> None)
      else None)"

definition decode_utf8 :: "bytes \<Rightarrow> error + pystr" where
  "decode_utf8 bs = (case utf8 (map unat bs) of None \<Rightarrow> Inl UnicodeDecodeError | Some s \<Rightarrow> Inr s)"

text \<open>\<open>s.rstrip('\x00')\<close>: drop the trailing NUL characters.\<close>

definition rstrip_nul :: "pystr \<Rightarrow> pystr" where
  "rstrip_nul s = rev (dropWhile (\<lambda>c. c = 0) (rev s))"

section \<open>The Channel class\<close>

record Channel =
  ch_type :: pyval
  major_ch :: pyval
  minor_ch :: pyval
  ptc :: pyval
  prog_num :: pyval
  dispno :: pyval
  title :: pyval

subsection \<open>\<open>Channel._parse_dat\<close>\<close>

definition parse_dat :: "bytes \<Rightarrow> error + Channel" where
  "parse_dat buf =
     on_ok (getint buf 0) (\<lambda>t.
       if t \<noteq> 4 \<and> t \<noteq> 3 \<and> t \<noteq> 2
       then Inl (ParseException (lit ''Unknown channel type '' @ dec_int t) [])
       else
     on_ok (getint buf 2) (\<lambda>major.
     on_ok (getint buf 4) (\<lambda>minor.
     on_ok (getint buf 6) (\<lambda>p.
     on_ok (getint buf 8) (\<lambda>prog.
     on_ok (getint buf 10) (\<lambda>reserved.
       if reserved \<noteq> 65535
       then on_ok (getint buf 10) (\<lambda>r.
              Inl (ParseException (lit ''reserved field mismatch ('' @ hex04 r @ lit '')'') []))
       else
     on_ok (decode_utf8 (slice buf 12 16)) (\<lambda>d.
     on_ok (getint buf 22) (\<lambda>title_len.
     on_ok (decode_utf8 (slice buf 24 (24 + nat title_len))) (\<lambda>ti.
       Inr \<lparr> ch_type = PyStr (if t = 4 then lit ''CDTV'' else if t = 3 then lit ''CATV'' else lit ''DTV''),
             major_ch = PyInt major, minor_ch = PyInt minor, ptc = PyInt p,
             prog_num = PyInt prog, dispno = PyStr (rstrip_nul d), title = PyStr ti \<rparr>)))))))))"

subsection \<open>\<open>Channel._parse_xml\<close>: the DOM the code reads\<close>

text \<open>
  (The source's parameter \<open>root\<close> is written \<open>rootn\<close>: \<open>root\<close> is a constant of HOL.)

  The nodes of \<open>xml.dom.minidom\<close>, as far as the code observes them: the children
  of a node, the tag name of an element and \<open>nodeValue\<close> (the data of a text or
  comment node, \<open>None\<close> for an element and for the document). Attributes are never
  read by the code and are left out.
\<close>

datatype node =
    Document "node list"
  | Element pystr "node list"
  | Text pystr
  | Comment pystr

fun nodeValue :: "node \<Rightarrow> pyval" where
  "nodeValue (Document cs) = PyNone"
| "nodeValue (Element t cs) = PyNone"
| "nodeValue (Text d) = PyStr d"
| "nodeValue (Comment d) = PyStr d"

fun childNodes :: "node \<Rightarrow> node list" where
  "childNodes (Document cs) = cs"
| "childNodes (Element t cs) = cs"
| "childNodes (Text d) = []"
| "childNodes (Comment d) = []"

fun has_tag :: "pystr \<Rightarrow> node \<Rightarrow> bool" where
  "has_tag name (Element t cs) = (name = lit ''*'' \<or> t = name)"
| "has_tag name n = False"

text \<open>
  \<open>_get_elements_by_tagName_helper\<close>: the descendant elements with the tag, in
  document order (each child before its own descendants, the parent itself excluded).
\<close>

fun elements_by_tagName :: "node \<Rightarrow> pystr \<Rightarrow> node list" where
  "elements_by_tagName (Document cs) name =
     concat (map (\<lambda>n. (if has_tag name n then [n] else []) @ elements_by_tagName n name) cs)"
| "elements_by_tagName (Element t cs) name =
     concat (map (\<lambda>n. (if has_tag name n then [n] else []) @ elements_by_tagName n name) cs)"
| "elements_by_tagName (Text d) name = []"
| "elements_by_tagName (Comment d) name = []"

text \<open>Only documents and elements have the method; on another node the call is an \<open>AttributeError\<close>.\<close>

fun getElementsByTagName :: "node \<Rightarrow> pystr \<Rightarrow> error + node list" where
  "getElementsByTagName (Text d) name = Inl AttributeError"
| "getElementsByTagName (Comment d) name = Inl AttributeError"
| "getElementsByTagName n name = Inr (elements_by_tagName n name)"

text \<open>\<open>xs[0]\<close>\<close>

fun item0 :: "'a list \<Rightarrow> error + 'a" where
  "item0 [] = Inl IndexError"
| "item0 (x # xs) = Inr x"

text \<open>\<open>root.getElementsByTagName(name)[0].childNodes[0].nodeValue\<close>\<close>

definition first_value :: "node \<Rightarrow> pystr \<Rightarrow> error + pyval" where
  "first_value rootn name =
     on_ok (getElementsByTagName rootn name) (\<lambda>els.
     on_ok (item0 els) (\<lambda>el.
     on_ok (item0 (childNodes el)) (\<lambda>child.
       Inr (nodeValue child))))"

text \<open>Every exception raised in the body is replaced by the one \<open>ParseException\<close>.\<close>

definition parse_xml :: "node \<Rightarrow> error + Channel" where
  "parse_xml rootn =
     (case
        on_ok (first_value rootn (lit ''ChType'')) (\<lambda>t.
        on_ok (first_value rootn (lit ''MajorCh'')) (\<lambda>major.
        on_ok (first_value rootn (lit ''MinorCh'')) (\<lambda>minor.
        on_ok (first_value rootn (lit ''PTC'')) (\<lambda>p.
        on_ok (first_value rootn (lit ''ProgNum'')) (\<lambda>prog.
          Inr \<lparr> ch_type = t, major_ch = major, minor_ch = minor, ptc = p,
                prog_num = prog, dispno = major, title = PyStr [] \<rparr>)))))
      of
        Inl e \<Rightarrow> Inl (ParseException (lit ''Wrong XML document'') [])
      | Inr c \<Rightarrow> Inr c)"

subsection \<open>\<open>Channel.__init__\<close>\<close>

text \<open>The constructor branches on \<open>isinstance(from_dat, minidom.Node)\<close>.\<close>

datatype init_arg = FromNode node | FromBytes bytes

fun Channel_init :: "init_arg \<Rightarrow> error + Channel" where
  "Channel_init (FromNode rootn) = parse_xml rootn"
| "Channel_init (FromBytes buf) = parse_dat buf"

subsection \<open>\<open>Channel._parse_channel_list\<close>\<close>

text \<open>
  The \<open>while pos < len(channel_list)\<close> loop, with the dictionary \<open>channels\<close> as a
  map. A \<open>ParseException\<close> of the constructor gets the chunk as context and is
  raised again; any other exception passes through unchanged.
\<close>

function parse_loop :: "bytes \<Rightarrow> nat \<Rightarrow> (pyval \<rightharpoonup> Channel) \<Rightarrow> error + (pyval \<rightharpoonup> Channel)" where
  "parse_loop channel_list pos channels =
     (if pos < length channel_list then
        (let chunk = slice channel_list pos (pos + 124) in
         case Channel_init (FromBytes chunk) of
           Inl pe \<Rightarrow>
             Inl (add_context pe
                    (lit ''chunk starting at '' @ dec_int (int pos) @ lit '': '' @ repr_bytes chunk))
         | Inr ch \<Rightarrow> parse_loop channel_list (pos + 124) (channels(dispno ch \<mapsto> ch)))
      else Inr channels)"
  by pat_completeness auto
termination
  by (relation "measure (\<lambda>(channel_list, pos, channels). length channel_list - pos)") auto

declare parse_loop.simps [simp del]

text \<open>
  Calling a string, as in \<open>('...' % (...)) ('Channel list: %s' % ...)\<close>: both
  operands are evaluated, then the call raises \<open>TypeError\<close>
  (\<open>'str' object is not callable\<close>).
\<close>

definition call_str :: "pystr \<Rightarrow> pystr \<Rightarrow> error + pystr" where
  "call_str f arg = Inl TypeError"

text \<open>
  \<open>actual_channel_list_len\<close> is the true quotient \<open>(len - 4) / 124\<close>, a float in
  the source and a rational here; where it is computed the division is exact.
  \<open>'%d'\<close> of a float prints its integer part. The final \<open>LOGGER.info\<close> does not
  change the result and is left out.
\<close>

definition parse_channel_list :: "bytes \<Rightarrow> error + (pyval \<rightharpoonup> Channel)" where
  "parse_channel_list channel_list =
     (if length channel_list < 128 then
        Inl (ParseException
               (lit ''channel list is smaller than it has to be for at least one channel (''
                  @ dec_int (int (length channel_list)) @ lit '' bytes (actual) vs. 128 bytes'')
               (list_of_str (lit ''Channel list: '' @ repr_bytes channel_list)))
      else if (int (length channel_list) - 4) mod 124 \<noteq> 0 then
        Inl (ParseException
               (lit ''channel list'' @ [39] @ lit ''s size ('' @ dec_int (int (length channel_list))
                  @ lit '') minus 128 (header) is not a multiple of 124 bytes'')
               (list_of_str (lit ''Channel list: '' @ repr_bytes channel_list)))
      else
        (let actual_channel_list_len = (of_int (int (length channel_list) - 4) / 124 :: rat) in
         on_ok (getint channel_list 2) (\<lambda>expected_channel_list_len.
           if actual_channel_list_len \<noteq> of_int expected_channel_list_len then
             on_ok (call_str
                      (lit ''Actual channel list length (('' @ dec_int (int (length channel_list))
                         @ lit ''-4)/124='' @ dec_int \<lfloor>actual_channel_list_len\<rfloor>
                         @ lit '') does not equal expected channel list length (''
                         @ dec_int expected_channel_list_len @ lit '') as defined in header'')
                      (lit ''Channel list: '' @ repr_bytes channel_list))
               (\<lambda>msg. Inl (ParseException msg []))
           else parse_loop channel_list 4 Map.empty)))"

subsection \<open>\<open>Channel.as_xml\<close>\<close>

text \<open>\<open>s.replace(old, new)\<close> for a one-character \<open>old\<close>.\<close>

definition replace_char :: "nat \<Rightarrow> pystr \<Rightarrow> pystr \<Rightarrow> pystr" where
  "replace_char old new s = concat (map (\<lambda>c. if c = old then new else [c]) s)"

text \<open>
  \<open>xml.sax.saxutils.escape\<close>: three replacements in a row, \<open>&\<close> first. On a value
  that is not a string, \<open>data.replace\<close> is an \<open>AttributeError\<close>.
\<close>

definition escape :: "pystr \<Rightarrow> pystr" where
  "escape data =
     replace_char 60 (lit ''&lt;'') (replace_char 62 (lit ''&gt;'') (replace_char 38 (lit ''&amp;'') data))"

definition escape_val :: "pyval \<Rightarrow> error + pystr" where
  "escape_val v = (case v of PyStr s \<Rightarrow> Inr (escape s) | _ \<Rightarrow> Inl AttributeError)"

definition as_xml :: "Channel \<Rightarrow> error + pystr" where
  "as_xml c =
     on_ok (escape_val (ch_type c)) (\<lambda>t.
     on_ok (fmt_d (major_ch c)) (\<lambda>a.
     on_ok (fmt_d (minor_ch c)) (\<lambda>b.
     on_ok (fmt_d (ptc c)) (\<lambda>p.
     on_ok (fmt_d (prog_num c)) (\<lambda>n.
       Inr (lit ''<?xml version=\"1.0\" encoding=\"UTF-8\" ?><Channel><ChType>'' @ t
            @ lit ''</ChType><MajorCh>'' @ a
            @ lit ''</MajorCh><MinorCh>'' @ b
            @ lit ''</MinorCh><PTC>'' @ p
            @ lit ''</PTC><ProgNum>'' @ n
            @ lit ''</ProgNum></Channel>''))))))"

section \<open>The XML-parsing collaborator\<close>

text \<open>
  \<open>_parse_xml\<close> receives a node that \<open>minidom\<close> built from a document. To relate
  \<open>as_xml\<close> to \<open>_parse_xml\<close>, \<open>parseString\<close> models the parser on the part of
  XML 1.0 that \<open>as_xml\<close> can emit: the XML declaration exactly as \<open>as_xml\<close> writes
  it, elements with ASCII names and no attributes, and character data with the five
  predefined entity references. The result is \<open>None\<close> for a document that is not
  well-formed and for syntax outside this part (attributes, comments, CDATA sections,
  processing instructions, character references, empty-element tags).
\<close>

text \<open>The production \<open>Char\<close> of XML 1.0: the code points a document may contain.\<close>

definition xml_char :: "nat \<Rightarrow> bool" where
  "xml_char c =
     (c = 9 \<or> c = 10 \<or> c = 13 \<or> (32 \<le> c \<and> c \<le> 55295)
      \<or> (57344 \<le> c \<and> c \<le> 65533) \<or> (65536 \<le> c \<and> c \<le> 1114111))"

definition name_start :: "nat \<Rightarrow> bool" where
  "name_start c = ((65 \<le> c \<and> c \<le> 90) \<or> (97 \<le> c \<and> c \<le> 122) \<or> c = 95 \<or> c = 58)"

definition name_char :: "nat \<Rightarrow> bool" where
  "name_char c = (name_start c \<or> (48 \<le> c \<and> c \<le> 57) \<or> c = 45 \<or> c = 46)"

definition entity :: "pystr \<Rightarrow> nat option" where
  "entity e =
     (if e = lit ''amp'' then Some 38
      else if e = lit ''lt'' then Some 60
      else if e = lit ''gt'' then Some 62
      else if e = lit ''quot'' then Some 34
      else if e = lit ''apos'' then Some 39
      else None)"

datatype token = Open pystr | Close pystr | Chars pystr

datatype lex_state =
    InText pystr
  | InRef pystr pystr
  | TagStart
  | InOpen pystr
  | InClose pystr

definition emit_text :: "pystr \<Rightarrow> token list \<Rightarrow> token list" where
  "emit_text acc ts = (if acc = [] then ts else Chars acc # ts)"

text \<open>
  The scanner. Character data runs up to the next \<open><\<close>, with the references
  replaced; adjacent pieces of text form one token, as \<open>minidom\<close> joins them into one
  text node. The sequence \<open>]]>\<close> may not occur in character data.
\<close>

fun lex :: "lex_state \<Rightarrow> pystr \<Rightarrow> token list option" where
  "lex (InText acc) [] = Some (emit_text acc [])"
| "lex (InRef acc e) [] = None"
| "lex TagStart [] = None"
| "lex (InOpen n) [] = None"
| "lex (InClose n) [] = None"
| "lex (InText acc) (c # cs) =
     (if c = 60 then map_option (emit_text acc) (lex TagStart cs)
      else if c = 38 then lex (InRef acc []) cs
      else if c = 62 \<and> 2 \<le> length acc \<and> drop (length acc - 2) acc = [93, 93] then None
      else lex (InText (acc @ [c])) cs)"
| "lex (InRef acc e) (c # cs) =
     (if c = 59 then (case entity e of None \<Rightarrow> None | Some x \<Rightarrow> lex (InText (acc @ [x])) cs)
      else if name_char c then lex (InRef acc (e @ [c])) cs
      else None)"
| "lex TagStart (c # cs) =
     (if c = 47 then lex (InClose []) cs
      else if name_start c then lex (InOpen [c]) cs
      else None)"
| "lex (InOpen n) (c # cs) =
     (if c = 62 then map_option ((#) (Open n)) (lex (InText []) cs)
      else if name_char c then lex (InOpen (n @ [c])) cs
      else None)"
| "lex (InClose n) (c # cs) =
     (if c = 62 then (if n = [] then None else map_option ((#) (Close n)) (lex (InText []) cs))
      else if (if n = [] then name_start c else name_char c) then lex (InClose (n @ [c])) cs
      else None)"

definition is_space :: "nat \<Rightarrow> bool" where
  "is_space c = (c = 32 \<or> c = 9 \<or> c = 10 \<or> c = 13)"

text \<open>
  The tree builder: a stack of the open elements with their children so far, and the
  root element once it is closed. Outside the root element only white space may stand.
\<close>

fun build :: "(pystr \<times> node list) list \<Rightarrow> node option \<Rightarrow> token list \<Rightarrow> node option" where
  "build [] (Some r) [] = Some (Document [r])"
| "build st r [] = None"
| "build [] (Some r) (Open n # ts) = None"
| "build st r (Open n # ts) = build ((n, []) # st) r ts"
| "build [] r (Chars s # ts) = (if list_all is_space s then build [] r ts else None)"
| "build ((m, cs) # st) r (Chars s # ts) = build ((m, cs @ [Text s]) # st) r ts"
| "build [] r (Close n # ts) = None"
| "build [(m, cs)] r (Close n # ts) =
     (if m = n then build [] (Some (Element m cs)) ts else None)"
| "build ((m, cs) # (p, ps) # st) r (Close n # ts) =
     (if m = n then build ((p, ps @ [Element m cs]) # st) r ts else None)"

definition xml_decl :: pystr where
  "xml_decl = lit ''<?xml version=\"1.0\" encoding=\"UTF-8\" ?>''"

text \<open>
  Line ends are normalised before anything else is read (XML 1.0, section 2.11): the
  pair CR LF and every CR that is not followed by LF become a single LF.
\<close>

fun normalize_newlines :: "pystr \<Rightarrow> pystr" where
  "normalize_newlines [] = []"
| "normalize_newlines [c] = [if c = 13 then 10 else c]"
| "normalize_newlines (c # d # cs) =
     (if c = 13 \<and> d = 10 then 10 # normalize_newlines cs
      else if c = 13 then 10 # normalize_newlines (d # cs)
      else c # normalize_newlines (d # cs))"

definition parseString :: "pystr \<Rightarrow> node option" where
  "parseString s =
     (if list_all xml_char s then
        (case lex (InText [])
                (normalize_newlines
                   (if take (length xml_decl) s = xml_decl then drop (length xml_decl) s else s)) of
           None \<Rightarrow> None
         | Some ts \<Rightarrow> build [] None ts)
      else None)"

section \<open>Values used by the statements\<close>

text \<open>
  \<open>u16 buf off\<close> is the number \<open>_getint(buf, off)\<close> returns when the two bytes are
  there (lemma \<open>getint_ok\<close> below).
\<close>

definition u16 :: "bytes \<Rightarrow> nat \<Rightarrow> int" where
  "u16 buf off = uint (buf ! off) + 256 * uint (buf ! Suc off)"

text \<open>
  The record of the specification's concrete scenario: type 4, major channel 7, minor
  channel 0, PTC 33, program number 1, reserved \<open>0xFFFF\<close>, display number \<open>7\<close>,
  title length 5 and title \<open>Tele5\<close>; and the Channel it decodes to.
\<close>

definition scenario_record :: bytes where
  "scenario_record =
     [4, 0, 7, 0, 0, 0, 33, 0, 1, 0, 255, 255, 55, 0, 0, 0] @ replicate 6 0
       @ [5, 0] @ [84, 101, 108, 101, 53] @ replicate 95 0"

definition scenario_channel :: Channel where
  "scenario_channel =
     \<lparr> ch_type = PyStr (lit ''CDTV''), major_ch = PyInt 7, minor_ch = PyInt 0, ptc = PyInt 33,
       prog_num = PyInt 1, dispno = PyStr (lit ''7''), title = PyStr (lit ''Tele5'') \<rparr>"

text \<open>The scenario's record with the type code 2, and with the type code 3.\<close>

definition dtv_record :: bytes where
  "dtv_record = scenario_record[0 := 2]"

definition catv_record :: bytes where
  "catv_record = scenario_record[0 := 3]"

text \<open>A record with the unknown type code 1 and the reserved field 0.\<close>

definition bad_type_record :: bytes where
  "bad_type_record = [1, 0] @ replicate 122 0"

text \<open>A record of type 4 whose reserved field is \<open>0x1234\<close>.\<close>

definition bad_reserved_record :: bytes where
  "bad_reserved_record = [4, 0, 7, 0, 0, 0, 33, 0, 1, 0, 52, 18] @ replicate 112 255"

text \<open>
  The specification's second scenario: the header declares two records, one follows.
\<close>

definition count_mismatch_buffer :: bytes where
  "count_mismatch_buffer = [0, 0, 2, 0] @ scenario_record"

text \<open>
  A record that declares a title of 101 bytes; the 100 bytes after offset 24 are all
  \<open>A\<close>. And the Channel it decodes to.
\<close>

definition long_title_record :: bytes where
  "long_title_record =
     [4, 0, 7, 0, 0, 0, 33, 0, 1, 0, 255, 255, 55, 0, 0, 0] @ replicate 6 0
       @ [101, 0] @ replicate 100 65"

definition long_title_channel :: Channel where
  "long_title_channel =
     \<lparr> ch_type = PyStr (lit ''CDTV''), major_ch = PyInt 7, minor_ch = PyInt 0, ptc = PyInt 33,
       prog_num = PyInt 1, dispno = PyStr (lit ''7''), title = PyStr (replicate 100 65) \<rparr>"

text \<open>
  The collection in which each Channel is stored under its \<open>dispno\<close> and, among
  Channels with the same \<open>dispno\<close>, the one that comes last in the list is kept.
\<close>

definition keyed_by_dispno :: "Channel list \<Rightarrow> (pyval \<rightharpoonup> Channel)" where
  "keyed_by_dispno chans = map_of (rev (map (\<lambda>c. (dispno c, c)) chans))"

text \<open>
  The document tree of the scenario's channel, as a device would report it, and the
  Channel that the XML path builds from it.
\<close>

definition scenario_doc :: node where
  "scenario_doc =
     Document [Element (lit ''Channel'')
       [Element (lit ''ChType'') [Text (lit ''CDTV'')],
        Element (lit ''MajorCh'') [Text (lit ''7'')],
        Element (lit ''MinorCh'') [Text (lit ''0'')],
        Element (lit ''PTC'') [Text (lit ''33'')],
        Element (lit ''ProgNum'') [Text (lit ''1'')]]]"

definition scenario_channel_from_xml :: Channel where
  "scenario_channel_from_xml =
     \<lparr> ch_type = PyStr (lit ''CDTV''), major_ch = PyStr (lit ''7''), minor_ch = PyStr (lit ''0''),
       ptc = PyStr (lit ''33''), prog_num = PyStr (lit ''1''), dispno = PyStr (lit ''7''),
       title = PyStr [] \<rparr>"

text \<open>
  The same report with the type wrapped in a further element:
  \<open><ChType><b>CDTV</b></ChType>\<close>.
\<close>

definition nested_doc :: node where
  "nested_doc =
     Document [Element (lit ''Channel'')
       [Element (lit ''ChType'') [Element (lit ''b'') [Text (lit ''CDTV'')]],
        Element (lit ''MajorCh'') [Text (lit ''7'')],
        Element (lit ''MinorCh'') [Text (lit ''0'')],
        Element (lit ''PTC'') [Text (lit ''33'')],
        Element (lit ''ProgNum'') [Text (lit ''1'')]]]"

text \<open>
  The fixed shape of the document that the specification gives for \<open>to_xml\<close>, with
  the five texts as parameters; its part after the XML declaration; and the tree such
  a document denotes.
\<close>

definition xml_document :: "pystr \<Rightarrow> pystr \<Rightarrow> pystr \<Rightarrow> pystr \<Rightarrow> pystr \<Rightarrow> pystr" where
  "xml_document t a b p n =
     lit ''<?xml version=\"1.0\" encoding=\"UTF-8\" ?><Channel><ChType>'' @ t
       @ lit ''</ChType><MajorCh>'' @ a
       @ lit ''</MajorCh><MinorCh>'' @ b
       @ lit ''</MinorCh><PTC>'' @ p
       @ lit ''</PTC><ProgNum>'' @ n
       @ lit ''</ProgNum></Channel>''"

definition xml_body :: "pystr \<Rightarrow> pystr \<Rightarrow> pystr \<Rightarrow> pystr \<Rightarrow> pystr \<Rightarrow> pystr" where
  "xml_body t a b p n =
     lit ''<Channel><ChType>'' @ t
       @ lit ''</ChType><MajorCh>'' @ a
       @ lit ''</MajorCh><MinorCh>'' @ b
       @ lit ''</MinorCh><PTC>'' @ p
       @ lit ''</PTC><ProgNum>'' @ n
       @ lit ''</ProgNum></Channel>''"

definition channel_tree :: "pystr \<Rightarrow> pystr \<Rightarrow> pystr \<Rightarrow> pystr \<Rightarrow> pystr \<Rightarrow> node" where
  "channel_tree t a b p n =
     Document [Element (lit ''Channel'')
       [Element (lit ''ChType'') (if t = [] then [] else [Text t]),
        Element (lit ''MajorCh'') [Text a],
        Element (lit ''MinorCh'') [Text b],
        Element (lit ''PTC'') [Text p],
        Element (lit ''ProgNum'') [Text n]]]"

text \<open>
  What \<open>escape\<close> puts for one character (lemma \<open>escape_concat\<close> below), and the
  reading of an unpadded decimal numeral: an optional minus sign and digits without a
  leading zero (the numeral \<open>0\<close> apart, and no \<open>-0\<close>); anything else has no value.
\<close>

definition escape_char :: "nat \<Rightarrow> pystr" where
  "escape_char c =
     (if c = 38 then lit ''&amp;'' else if c = 60 then lit ''&lt;''
      else if c = 62 then lit ''&gt;'' else [c])"

definition is_digit :: "nat \<Rightarrow> bool" where
  "is_digit c = (48 \<le> c \<and> c \<le> 57)"

definition nat_of_digits :: "pystr \<Rightarrow> nat" where
  "nat_of_digits ds = foldl (\<lambda>v c. 10 * v + (c - 48)) 0 ds"

definition canonical_digits :: "pystr \<Rightarrow> bool" where
  "canonical_digits ds = (ds \<noteq> [] \<and> list_all is_digit ds \<and> (ds = [48] \<or> hd ds \<noteq> 48))"

definition value_of_decimal :: "pystr \<Rightarrow> int option" where
  "value_of_decimal t =
     (if t \<noteq> [] \<and> hd t = 45 then
        (if canonical_digits (tl t) \<and> tl t \<noteq> [48]
         then Some (- int (nat_of_digits (tl t))) else None)
      else if canonical_digits t then Some (int (nat_of_digits t)) else None)"

text \<open>A Channel whose \<open>ch_type\<close> is the one character U+0000, and the scenario's document.\<close>

definition nul_type_channel :: Channel where
  "nul_type_channel =
     \<lparr> ch_type = PyStr [0], major_ch = PyInt 7, minor_ch = PyInt 0, ptc = PyInt 33,
       prog_num = PyInt 1, dispno = PyStr (lit ''7''), title = PyStr [] \<rparr>"

definition scenario_xml :: pystr where
  "scenario_xml = xml_document (lit ''CDTV'') (lit ''7'') (lit ''0'') (lit ''33'') (lit ''1'')"

section \<open>Evaluation and basic facts\<close>

lemma on_ok_Inr [simp]: "on_ok (Inr x) f = f x"
  by (simp add: on_ok_def)

lemma on_ok_Inl [simp]: "on_ok (Inl e) f = Inl e"
  by (simp add: on_ok_def)

lemma dec_nat_small: "n < 10 \<Longrightarrow> dec_nat n = [digit_char n]"
  by (simp add: dec_nat.simps)

lemma dec_nat_big: "\<not> n < 10 \<Longrightarrow> dec_nat n = dec_nat (n div 10) @ [digit_char (n mod 10)]"
  by (subst dec_nat.simps) simp

lemma hex_nat_small: "n < 16 \<Longrightarrow> hex_nat n = [digit_char n]"
  by (simp add: hex_nat.simps)

lemma hex_nat_big: "\<not> n < 16 \<Longrightarrow> hex_nat n = hex_nat (n div 16) @ [digit_char (n mod 16)]"
  by (subst hex_nat.simps) simp

lemmas eval_fmt = dec_int_def dec_nat_small dec_nat_big hex04_def hex_nat_small hex_nat_big
  digit_char_def lit_def

lemma slice2: "off + 2 \<le> length buf \<Longrightarrow> slice buf off (off + 2) = [buf ! off, buf ! Suc off]"
proof -
  assume h: "off + 2 \<le> length buf"
  then have a: "drop off buf = buf ! off # drop (Suc off) buf"
    by (simp add: Cons_nth_drop_Suc)
  from h have b: "drop (Suc off) buf = buf ! Suc off # drop (Suc (Suc off)) buf"
    by (simp add: Cons_nth_drop_Suc)
  show ?thesis
    by (simp add: slice_def a b)
qed

lemma getint_ok: "off + 2 \<le> length buf \<Longrightarrow> getint buf off = Inr (u16 buf off)"
  by (simp only: getint_def slice2 u16_def list.case)

lemma u16_range: "0 \<le> u16 buf off \<and> u16 buf off \<le> 65535"
proof -
  have "uint (buf ! off) < 256" "uint (buf ! Suc off) < 256"
    using uint_bounded [of "buf ! off"] uint_bounded [of "buf ! Suc off"] by simp_all
  then show ?thesis
    by (simp add: u16_def)
qed

lemma parse_dat_record:
  assumes "length buf = 124"
  shows "parse_dat buf =
     (if u16 buf 0 \<noteq> 4 \<and> u16 buf 0 \<noteq> 3 \<and> u16 buf 0 \<noteq> 2
      then Inl (ParseException (lit ''Unknown channel type '' @ dec_int (u16 buf 0)) [])
      else if u16 buf 10 \<noteq> 65535
      then Inl (ParseException (lit ''reserved field mismatch ('' @ hex04 (u16 buf 10) @ lit '')'') [])
      else on_ok (decode_utf8 (slice buf 12 16)) (\<lambda>d.
           on_ok (decode_utf8 (slice buf 24 (24 + nat (u16 buf 22)))) (\<lambda>ti.
             Inr \<lparr> ch_type = PyStr (if u16 buf 0 = 4 then lit ''CDTV''
                                     else if u16 buf 0 = 3 then lit ''CATV'' else lit ''DTV''),
                   major_ch = PyInt (u16 buf 2), minor_ch = PyInt (u16 buf 4),
                   ptc = PyInt (u16 buf 6), prog_num = PyInt (u16 buf 8),
                   dispno = PyStr (rstrip_nul d), title = PyStr ti \<rparr>)))"
  using assms by (simp add: parse_dat_def getint_ok)

lemmas eval_dat = parse_dat_def getint_def slice_def decode_utf8_def rstrip_nul_def is_cont_def

lemma scenario_record_length: "length scenario_record = 124"
  by (simp add: scenario_record_def)

lemma parse_dat_scenario: "parse_dat scenario_record = Inr scenario_channel"
  by (simp add: scenario_record_def scenario_channel_def eval_dat lit_def)

lemma decode_utf8_error: "decode_utf8 bs = Inl e \<Longrightarrow> e = UnicodeDecodeError"
  by (simp add: decode_utf8_def split: option.splits)

lemma unknown_not_reserved:
  "lit ''reserved field mismatch ('' @ n \<noteq> lit ''Unknown channel type '' @ m"
  by (simp add: lit_def)

lemma replicate_num: "replicate (numeral k) x = x # replicate (pred_numeral k) x"
  by (simp add: numeral_eq_Suc)

lemmas eval_rec = getint_def slice_def decode_utf8_def rstrip_nul_def is_cont_def replicate_num

lemma parse_dat_result:
  assumes "length buf = 124" and "getint buf 0 = Inr t" and "getint buf 2 = Inr major"
    and "getint buf 4 = Inr minor" and "getint buf 6 = Inr p" and "getint buf 8 = Inr prog"
    and "getint buf 10 = Inr r" and "getint buf 22 = Inr n"
  shows "parse_dat buf =
     (if t \<noteq> 4 \<and> t \<noteq> 3 \<and> t \<noteq> 2
      then Inl (ParseException (lit ''Unknown channel type '' @ dec_int t) [])
      else if r \<noteq> 65535
      then Inl (ParseException (lit ''reserved field mismatch ('' @ hex04 r @ lit '')'') [])
      else (case decode_utf8 (slice buf 12 16) of
              Inl e \<Rightarrow> Inl UnicodeDecodeError
            | Inr d \<Rightarrow>
                (case decode_utf8 (slice buf 24 (24 + nat n)) of
                   Inl e \<Rightarrow> Inl UnicodeDecodeError
                 | Inr ti \<Rightarrow>
                     Inr \<lparr> ch_type = PyStr (if t = 4 then lit ''CDTV''
                                             else if t = 3 then lit ''CATV'' else lit ''DTV''),
                           major_ch = PyInt major, minor_ch = PyInt minor, ptc = PyInt p,
                           prog_num = PyInt prog, dispno = PyStr (rstrip_nul d),
                           title = PyStr ti \<rparr>)))"
proof -
  from assms have u: "u16 buf 0 = t" "u16 buf 2 = major" "u16 buf 4 = minor"
    "u16 buf 6 = p" "u16 buf 8 = prog" "u16 buf 10 = r" "u16 buf 22 = n"
    by (simp_all add: getint_ok)
  show ?thesis
    by (auto simp add: parse_dat_record [OF assms(1)] u on_ok_def
             split: sum.splits dest: decode_utf8_error)
qed

section \<open>Channel type codes\<close>

text \<open>
  Claim C6. For every 124-byte record, with \<open>t\<close> the 16-bit little-endian type code at
  offset 0: when \<open>t\<close> is none of 2, 3, 4 the binary construction fails with the
  exception \<open>Unknown channel type t\<close> and produces no Channel. When \<open>t\<close> is 2, 3 or 4
  that exception is not raised and the type is settled: the construction goes on to the
  other fields, and the Channel it builds (whenever the reserved field is \<open>0xFFFF\<close> and
  the display number and the title decode) has \<open>ch_type\<close> \<open>DTV\<close>, \<open>CATV\<close> or \<open>CDTV\<close>
  respectively.
\<close>

theorem type_code_mapping:
  assumes "length buf = 124" and "getint buf 0 = Inr t" and "getint buf 2 = Inr major"
    and "getint buf 4 = Inr minor" and "getint buf 6 = Inr p" and "getint buf 8 = Inr prog"
    and "getint buf 10 = Inr r" and "getint buf 22 = Inr n"
  shows "(t \<noteq> 2 \<and> t \<noteq> 3 \<and> t \<noteq> 4 \<longrightarrow>
            parse_dat buf = Inl (ParseException (lit ''Unknown channel type '' @ dec_int t) []))
       \<and> (t = 2 \<or> t = 3 \<or> t = 4 \<longrightarrow>
            parse_dat buf \<noteq> Inl (ParseException (lit ''Unknown channel type '' @ dec_int t) [])
            \<and> (\<forall>c. parse_dat buf = Inr c \<longrightarrow>
                  ch_type c = PyStr (if t = 2 then lit ''DTV'' else if t = 3 then lit ''CATV''
                                     else lit ''CDTV''))
            \<and> parse_dat buf =
                (if r \<noteq> 65535
                 then Inl (ParseException
                             (lit ''reserved field mismatch ('' @ hex04 r @ lit '')'') [])
                 else (case decode_utf8 (slice buf 12 16) of
                         Inl e \<Rightarrow> Inl UnicodeDecodeError
                       | Inr d \<Rightarrow>
                           (case decode_utf8 (slice buf 24 (24 + nat n)) of
                              Inl e \<Rightarrow> Inl UnicodeDecodeError
                            | Inr ti \<Rightarrow>
                                Inr \<lparr> ch_type = PyStr (if t = 2 then lit ''DTV''
                                                        else if t = 3 then lit ''CATV''
                                                        else lit ''CDTV''),
                                      major_ch = PyInt major, minor_ch = PyInt minor,
                                      ptc = PyInt p, prog_num = PyInt prog,
                                      dispno = PyStr (rstrip_nul d), title = PyStr ti \<rparr>))))"
  by (auto simp add: parse_dat_result [OF assms] unknown_not_reserved split: sum.splits)

theorem type_code_mapping_witness:
  "length dtv_record = 124 \<and> getint dtv_record 0 = Inr 2
   \<and> parse_dat dtv_record = Inr (scenario_channel \<lparr> ch_type := PyStr (lit ''DTV'') \<rparr>)
   \<and> length catv_record = 124 \<and> getint catv_record 0 = Inr 3
   \<and> parse_dat catv_record = Inr (scenario_channel \<lparr> ch_type := PyStr (lit ''CATV'') \<rparr>)
   \<and> length scenario_record = 124 \<and> getint scenario_record 0 = Inr 4
   \<and> parse_dat scenario_record = Inr scenario_channel
   \<and> length bad_type_record = 124 \<and> getint bad_type_record 0 = Inr 1
   \<and> parse_dat bad_type_record = Inl (ParseException (lit ''Unknown channel type 1'') [])"
proof -
  have l2: "length dtv_record = 124"
    by (simp add: dtv_record_def scenario_record_length)
  have g2: "getint dtv_record 0 = Inr 2" "getint dtv_record 2 = Inr 7"
    "getint dtv_record 4 = Inr 0" "getint dtv_record 6 = Inr 33" "getint dtv_record 8 = Inr 1"
    "getint dtv_record 10 = Inr 65535" "getint dtv_record 22 = Inr 5"
    by (simp_all add: dtv_record_def scenario_record_def eval_rec)
  have d2: "decode_utf8 (slice dtv_record 12 16) = Inr [55, 0, 0, 0]"
    "decode_utf8 (slice dtv_record 24 (24 + nat 5)) = Inr (lit ''Tele5'')"
    by (simp_all add: dtv_record_def scenario_record_def eval_rec lit_def)
  have l3: "length catv_record = 124"
    by (simp add: catv_record_def scenario_record_length)
  have g3: "getint catv_record 0 = Inr 3" "getint catv_record 2 = Inr 7"
    "getint catv_record 4 = Inr 0" "getint catv_record 6 = Inr 33" "getint catv_record 8 = Inr 1"
    "getint catv_record 10 = Inr 65535" "getint catv_record 22 = Inr 5"
    by (simp_all add: catv_record_def scenario_record_def eval_rec)
  have d3: "decode_utf8 (slice catv_record 12 16) = Inr [55, 0, 0, 0]"
    "decode_utf8 (slice catv_record 24 (24 + nat 5)) = Inr (lit ''Tele5'')"
    by (simp_all add: catv_record_def scenario_record_def eval_rec lit_def)
  have l4: "length scenario_record = 124"
    by (rule scenario_record_length)
  have g4: "getint scenario_record 0 = Inr 4" "getint scenario_record 2 = Inr 7"
    "getint scenario_record 4 = Inr 0" "getint scenario_record 6 = Inr 33"
    "getint scenario_record 8 = Inr 1" "getint scenario_record 10 = Inr 65535"
    "getint scenario_record 22 = Inr 5"
    by (simp_all add: scenario_record_def eval_rec)
  have d4: "decode_utf8 (slice scenario_record 12 16) = Inr [55, 0, 0, 0]"
    "decode_utf8 (slice scenario_record 24 (24 + nat 5)) = Inr (lit ''Tele5'')"
    by (simp_all add: scenario_record_def eval_rec lit_def)
  have l1: "length bad_type_record = 124"
    by (simp add: bad_type_record_def)
  have g1: "getint bad_type_record 0 = Inr 1" "getint bad_type_record 2 = Inr 0"
    "getint bad_type_record 4 = Inr 0" "getint bad_type_record 6 = Inr 0"
    "getint bad_type_record 8 = Inr 0" "getint bad_type_record 10 = Inr 0"
    "getint bad_type_record 22 = Inr 0"
    by (simp_all add: bad_type_record_def eval_rec)
  have one: "dec_int 1 = lit ''1''"
    by (simp add: eval_fmt)
  have r2: "parse_dat dtv_record = Inr (scenario_channel \<lparr> ch_type := PyStr (lit ''DTV'') \<rparr>)"
    using type_code_mapping [OF l2 g2] d2
    by (simp add: scenario_channel_def rstrip_nul_def lit_def)
  have r3: "parse_dat catv_record = Inr (scenario_channel \<lparr> ch_type := PyStr (lit ''CATV'') \<rparr>)"
    using type_code_mapping [OF l3 g3] d3
    by (simp add: scenario_channel_def rstrip_nul_def lit_def)
  have r4: "parse_dat scenario_record = Inr scenario_channel"
    using type_code_mapping [OF l4 g4] d4
    by (simp add: scenario_channel_def rstrip_nul_def lit_def)
  have r1: "parse_dat bad_type_record = Inl (ParseException (lit ''Unknown channel type 1'') [])"
    using type_code_mapping [OF l1 g1] one by (simp add: lit_def)
  from l1 l2 l3 l4 g1(1) g2(1) g3(1) g4(1) r1 r2 r3 r4 show ?thesis
    by simp
qed

section \<open>The reserved field\<close>

text \<open>
  Claim C7, as stated, fails: a record whose reserved field is 0 and whose type code
  is 1 is rejected with the unknown-type exception, not with the reserved-field one,
  because the type code is checked first.
\<close>

theorem reserved_mismatch_counterexample:
  "length bad_type_record = 124
   \<and> getint bad_type_record 10 = Inr 0
   \<and> parse_dat bad_type_record = Inl (ParseException (lit ''Unknown channel type 1'') [])
   \<and> parse_dat bad_type_record \<noteq> Inl (ParseException (lit ''reserved field mismatch (0000)'') [])"
  by (simp add: bad_type_record_def eval_dat eval_fmt replicate_num)

text \<open>
  Claim C7, amended. For every 124-byte record whose 16-bit field at offset 10 is not
  \<open>0xFFFF\<close> the binary construction fails, whatever the display number, the title
  length and the title bytes are: with the exception \<open>reserved field mismatch (xxxx)\<close>
  (the field in four hexadecimal digits) when the type code is 2, 3 or 4, and with the
  unknown-type exception, raised first, for every other type code.
\<close>

theorem reserved_mismatch:
  assumes "length buf = 124" and "getint buf 0 = Inr t" and "getint buf 10 = Inr r"
    and "r \<noteq> 65535"
  shows "parse_dat buf =
           (if t = 4 \<or> t = 3 \<or> t = 2
            then Inl (ParseException (lit ''reserved field mismatch ('' @ hex04 r @ lit '')'') [])
            else Inl (ParseException (lit ''Unknown channel type '' @ dec_int t) []))"
proof -
  from assms have "u16 buf 0 = t" and "u16 buf 10 = r"
    by (simp_all add: getint_ok)
  with assms(1,4) show ?thesis
    by (simp add: parse_dat_record)
qed

theorem reserved_mismatch_witness:
  "length bad_reserved_record = 124 \<and> getint bad_reserved_record 0 = Inr 4
   \<and> getint bad_reserved_record 10 = Inr 4660 \<and> (4660 :: int) \<noteq> 65535
   \<and> parse_dat bad_reserved_record
       = Inl (ParseException (lit ''reserved field mismatch (1234)'') [])"
proof -
  have l: "length bad_reserved_record = 124"
    by (simp add: bad_reserved_record_def)
  have t: "getint bad_reserved_record 0 = Inr 4"
    by (simp add: bad_reserved_record_def getint_def slice_def replicate_num)
  have r: "getint bad_reserved_record 10 = Inr 4660"
    by (simp add: bad_reserved_record_def getint_def slice_def replicate_num)
  have n: "(4660 :: int) \<noteq> 65535"
    by simp
  have "hex04 4660 = lit ''1234''"
    by (simp add: eval_fmt)
  with reserved_mismatch [OF l t r n] l t r show ?thesis
    by (simp add: lit_def)
qed

section \<open>Buffers that are too short\<close>

text \<open>
  Claim C8. For every buffer of fewer than 128 bytes, whatever it contains,
  \<open>_parse_channel_list\<close> fails with the size exception, whose message cites the
  actual length and the required 128 bytes. The result is fixed by the length check
  alone: no chunk is cut and no record is decoded.
\<close>

theorem short_buffer:
  assumes "length channel_list < 128"
  shows "parse_channel_list channel_list =
           Inl (ParseException
                  (lit ''channel list is smaller than it has to be for at least one channel (''
                     @ dec_int (int (length channel_list)) @ lit '' bytes (actual) vs. 128 bytes'')
                  (list_of_str (lit ''Channel list: '' @ repr_bytes channel_list)))"
  using assms by (simp add: parse_channel_list_def)

theorem short_buffer_witness:
  "length (take 127 (0 # 0 # 1 # 0 # scenario_record)) < 128
   \<and> parse_channel_list (take 127 (0 # 0 # 1 # 0 # scenario_record)) =
           Inl (ParseException
                  (lit ''channel list is smaller than it has to be for at least one channel (127 bytes (actual) vs. 128 bytes'')
                  (list_of_str (lit ''Channel list: '' @ repr_bytes (take 127 (0 # 0 # 1 # 0 # scenario_record)))))"
proof -
  have l: "length (take 127 (0 # 0 # 1 # 0 # scenario_record)) < 128"
    by simp
  have "dec_int (int (length (take 127 (0 # 0 # 1 # 0 # scenario_record)))) = lit ''127''"
    by (simp add: scenario_record_length eval_fmt)
  with short_buffer [OF l] l show ?thesis
    by (simp add: lit_def)
qed

section \<open>The count in the header\<close>

text \<open>
  When the two size checks pass and the header's count differs from the number of
  records, the \<open>raise\<close> statement does not build its \<open>ParseException\<close>: the
  message and the context stand side by side with no comma between them, so the
  message string is called with the context as argument, which is a \<open>TypeError\<close>.
\<close>

lemma count_mismatch_type_error:
  assumes "128 \<le> length channel_list" and "(int (length channel_list) - 4) mod 124 = 0"
    and "getint channel_list 2 = Inr n" and "n \<noteq> (int (length channel_list) - 4) div 124"
  shows "parse_channel_list channel_list = Inl TypeError"
proof -
  from assms(2) have "124 * ((int (length channel_list) - 4) div 124) = int (length channel_list) - 4"
    by (simp add: mod_eq_0_iff_dvd)
  then have "(of_int (int (length channel_list) - 4) / 124 :: rat)
               = of_int ((int (length channel_list) - 4) div 124)"
    by (metis (no_types, opaque_lifting) nonzero_mult_div_cancel_left of_int_mult of_int_numeral
        zero_neq_numeral)
  with assms show ?thesis
    by (simp add: parse_channel_list_def call_str_def)
qed

text \<open>
  Claim C1 says that such a buffer is rejected with a count-mismatch error that reports
  the computed and the declared count. On the buffer of the specification's own
  scenario (one record, declared count 2) the code raises \<open>TypeError\<close> instead; no
  \<open>ParseException\<close> and no message with the two counts reaches the caller.
\<close>

theorem count_mismatch_raises_type_error:
  "parse_channel_list count_mismatch_buffer = Inl TypeError"
proof -
  have l: "length count_mismatch_buffer = 128"
    by (simp add: count_mismatch_buffer_def scenario_record_length)
  have g: "getint count_mismatch_buffer 2 = Inr 2"
    by (simp add: count_mismatch_buffer_def getint_def slice_def)
  show ?thesis
    by (rule count_mismatch_type_error [OF _ _ g]) (simp_all add: l)
qed

section \<open>The declared title length\<close>

lemma long_title_record_length: "length long_title_record = 124"
  by (simp add: long_title_record_def)

lemma parse_dat_long_title: "parse_dat long_title_record = Inr long_title_channel"
  by (simp add: long_title_record_def long_title_channel_def eval_dat lit_def replicate_num)

text \<open>
  Claim C2, as stated, fails: a record that declares a title of 101 bytes is accepted,
  with the 100 bytes that the record has after offset 24 as its title.
\<close>

theorem title_length_counterexample:
  "length long_title_record = 124 \<and> getint long_title_record 22 = Inr 101
   \<and> parse_dat long_title_record = Inr long_title_channel"
  by (simp add: long_title_record_length parse_dat_long_title)
     (simp add: long_title_record_def getint_def slice_def replicate_num)


lemma u16_update_other:
  "i \<noteq> off \<Longrightarrow> i \<noteq> Suc off \<Longrightarrow> u16 (buf[i := x]) off = u16 buf off"
  by (simp add: u16_def)

lemma slice_update_after:
  assumes "b \<le> i"
  shows "slice (buf[i := x]) a b = slice buf a b"
proof (cases "a \<le> i")
  case True
  with assms have "b - a \<le> i - a"
    by simp
  with True show ?thesis
    by (simp add: slice_def drop_update_swap)
next
  case False
  then show ?thesis
    by (simp add: slice_def)
qed

lemma slice_title_long:
  assumes "length buf = 124" and "100 < n"
  shows "slice buf 24 (24 + nat n) = drop 24 buf"
  using assms by (simp add: slice_def)

text \<open>
  Claim C2, amended. For every 124-byte record whose declared title length (offset 22)
  exceeds 100, the binary construction raises no out-of-range error and reads nothing
  after the record. The title slice is exactly the 100 bytes from offset 24 to the end
  of the record. The construction fails only for an unknown type code, for a reserved
  field other than \<open>0xFFFF\<close>, or with \<open>UnicodeDecodeError\<close> when the display number or
  those 100 bytes are not UTF-8; in every other case it returns the Channel whose title
  is the decoding of those 100 bytes. It behaves exactly as on the same record with the
  declared length 100.
\<close>

theorem title_length_clamped:
  assumes "length buf = 124" and "getint buf 0 = Inr t" and "getint buf 2 = Inr major"
    and "getint buf 4 = Inr minor" and "getint buf 6 = Inr p" and "getint buf 8 = Inr prog"
    and "getint buf 10 = Inr r" and "getint buf 22 = Inr n" and "100 < n"
  shows "slice buf 24 (24 + nat n) = drop 24 buf
       \<and> length (drop 24 buf) = 100
       \<and> parse_dat buf =
           (if t \<noteq> 4 \<and> t \<noteq> 3 \<and> t \<noteq> 2
            then Inl (ParseException (lit ''Unknown channel type '' @ dec_int t) [])
            else if r \<noteq> 65535
            then Inl (ParseException (lit ''reserved field mismatch ('' @ hex04 r @ lit '')'') [])
            else (case decode_utf8 (slice buf 12 16) of
                    Inl e \<Rightarrow> Inl UnicodeDecodeError
                  | Inr d \<Rightarrow>
                      (case decode_utf8 (drop 24 buf) of
                         Inl e \<Rightarrow> Inl UnicodeDecodeError
                       | Inr ti \<Rightarrow>
                           Inr \<lparr> ch_type = PyStr (if t = 4 then lit ''CDTV''
                                                   else if t = 3 then lit ''CATV''
                                                   else lit ''DTV''),
                                 major_ch = PyInt major, minor_ch = PyInt minor, ptc = PyInt p,
                                 prog_num = PyInt prog, dispno = PyStr (rstrip_nul d),
                                 title = PyStr ti \<rparr>)))
       \<and> parse_dat buf = parse_dat (buf[22 := 100, 23 := 0])"
proof -
  let ?b = "buf[22 := 100, 23 := 0]"
  from assms have n: "u16 buf 22 = n"
    by (simp add: getint_ok)
  have l: "length ?b = 124"
    using assms(1) by simp
  have other: "u16 ?b 0 = u16 buf 0" "u16 ?b 2 = u16 buf 2" "u16 ?b 4 = u16 buf 4"
    "u16 ?b 6 = u16 buf 6" "u16 ?b 8 = u16 buf 8" "u16 ?b 10 = u16 buf 10"
    by (simp_all add: u16_update_other)
  have len: "u16 ?b 22 = 100"
    using assms(1) by (simp add: u16_def)
  have d: "slice ?b 12 16 = slice buf 12 16"
    by (simp add: slice_update_after)
  have t: "slice ?b 24 (24 + nat (u16 ?b 22)) = drop 24 buf"
    using assms(1) by (simp add: len slice_def)
  have s: "slice buf 24 (24 + nat n) = drop 24 buf"
    using assms(1,9) by (rule slice_title_long)
  have t': "slice buf 24 (24 + nat (u16 buf 22)) = drop 24 buf"
    using s n by simp
  have same: "parse_dat buf = parse_dat ?b"
    by (simp only: parse_dat_record [OF assms(1)] parse_dat_record [OF l] other d t t')
  note res = parse_dat_result [OF assms(1-8), unfolded s]
  from s assms(1) res same show ?thesis
    by simp
qed

theorem title_length_clamped_witness:
  "length long_title_record = 124 \<and> getint long_title_record 0 = Inr 4
   \<and> getint long_title_record 10 = Inr 65535
   \<and> getint long_title_record 22 = Inr 101 \<and> (100 :: int) < 101
   \<and> slice long_title_record 24 (24 + nat 101) = drop 24 long_title_record
   \<and> length (drop 24 long_title_record) = 100
   \<and> decode_utf8 (drop 24 long_title_record) = Inr (replicate 100 65)
   \<and> parse_dat long_title_record = Inr long_title_channel
   \<and> parse_dat long_title_record = parse_dat (long_title_record[22 := 100, 23 := 0])"
proof -
  have g: "getint long_title_record 0 = Inr 4" "getint long_title_record 2 = Inr 7"
    "getint long_title_record 4 = Inr 0" "getint long_title_record 6 = Inr 33"
    "getint long_title_record 8 = Inr 1" "getint long_title_record 10 = Inr 65535"
    "getint long_title_record 22 = Inr 101"
    by (simp_all add: long_title_record_def eval_rec)
  have n: "(100 :: int) < 101"
    by simp
  have d: "decode_utf8 (slice long_title_record 12 16) = Inr [55, 0, 0, 0]"
    by (simp add: long_title_record_def eval_rec)
  have ti: "decode_utf8 (drop 24 long_title_record) = Inr (replicate 100 65)"
    by (simp add: long_title_record_def eval_rec)
  note th = title_length_clamped [OF long_title_record_length g n]
  have r: "parse_dat long_title_record = Inr long_title_channel"
    using th [THEN conjunct2, THEN conjunct2, THEN conjunct1] d ti
    by (simp add: long_title_channel_def rstrip_nul_def lit_def)
  from long_title_record_length g(1) g(6) g(7) n ti r
    th [THEN conjunct1] th [THEN conjunct2, THEN conjunct1]
    th [THEN conjunct2, THEN conjunct2, THEN conjunct2]
  show ?thesis
    by blast
qed

lemma slice_chunk:
  "length r = 124 \<Longrightarrow> slice (pre @ r @ post) (length pre) (length pre + 124) = r"
  by (simp add: slice_def)

text \<open>
  Claim C10. Take a 124-byte record with a known type code, the reserved field
  \<open>0xFFFF\<close> and a declared title length above 100, inside any buffer (bytes \<open>pre\<close>
  before it, bytes \<open>post\<close> after it). The chunk that \<open>_parse_channel_list\<close> cuts at
  the record's offset is the record itself, the title slice is the 100 bytes the record
  has left after offset 24, and whenever those bytes and the four display-number bytes
  decode as UTF-8 the construction succeeds with that truncated title: it neither
  fails nor depends on \<open>post\<close>.
\<close>

theorem title_never_read_past_record:
  assumes "length buf = 124" and "getint buf 0 = Inr t" and "t = 2 \<or> t = 3 \<or> t = 4"
    and "getint buf 2 = Inr major" and "getint buf 4 = Inr minor"
    and "getint buf 6 = Inr p" and "getint buf 8 = Inr prog"
    and "getint buf 10 = Inr 65535" and "getint buf 22 = Inr n" and "100 < n"
    and "decode_utf8 (slice buf 12 16) = Inr d" and "decode_utf8 (drop 24 buf) = Inr ti"
  shows "slice (pre @ buf @ post) (length pre) (length pre + 124) = buf
       \<and> slice buf 24 (24 + nat n) = drop 24 buf
       \<and> length (drop 24 buf) = 100
       \<and> Channel_init (FromBytes (slice (pre @ buf @ post) (length pre) (length pre + 124))) =
           Inr \<lparr> ch_type = PyStr (if t = 4 then lit ''CDTV''
                                   else if t = 3 then lit ''CATV'' else lit ''DTV''),
                 major_ch = PyInt major, minor_ch = PyInt minor, ptc = PyInt p,
                 prog_num = PyInt prog, dispno = PyStr (rstrip_nul d), title = PyStr ti \<rparr>"
proof -
  from assms(1,2,4-9) have u: "u16 buf 0 = t" "u16 buf 2 = major" "u16 buf 4 = minor"
    "u16 buf 6 = p" "u16 buf 8 = prog" "u16 buf 10 = 65535" "u16 buf 22 = n"
    by (simp_all add: getint_ok)
  have s: "slice buf 24 (24 + nat n) = drop 24 buf"
    using assms(1,10) by (rule slice_title_long)
  have "parse_dat buf =
           Inr \<lparr> ch_type = PyStr (if t = 4 then lit ''CDTV''
                                   else if t = 3 then lit ''CATV'' else lit ''DTV''),
                 major_ch = PyInt major, minor_ch = PyInt minor, ptc = PyInt p,
                 prog_num = PyInt prog, dispno = PyStr (rstrip_nul d), title = PyStr ti \<rparr>"
    using assms(3,11,12) by (auto simp add: parse_dat_record [OF assms(1)] u s)
  with assms(1) s show ?thesis
    by (simp add: slice_chunk)
qed

theorem title_never_read_past_record_witness:
  "length long_title_record = 124 \<and> getint long_title_record 0 = Inr 4
   \<and> getint long_title_record 2 = Inr 7 \<and> getint long_title_record 4 = Inr 0
   \<and> getint long_title_record 6 = Inr 33 \<and> getint long_title_record 8 = Inr 1
   \<and> getint long_title_record 10 = Inr 65535 \<and> getint long_title_record 22 = Inr 101
   \<and> decode_utf8 (slice long_title_record 12 16) = Inr [55, 0, 0, 0]
   \<and> decode_utf8 (drop 24 long_title_record) = Inr (replicate 100 65)
   \<and> slice ([0, 0, 1, 0] @ long_title_record @ [66, 66]) 4 (4 + 124) = long_title_record
   \<and> Channel_init (FromBytes (slice ([0, 0, 1, 0] @ long_title_record @ [66, 66]) 4 (4 + 124)))
        = Inr long_title_channel"
proof -
  have g: "getint long_title_record 0 = Inr 4" "getint long_title_record 2 = Inr 7"
    "getint long_title_record 4 = Inr 0" "getint long_title_record 6 = Inr 33"
    "getint long_title_record 8 = Inr 1" "getint long_title_record 10 = Inr 65535"
    "getint long_title_record 22 = Inr 101"
    by (simp_all add: long_title_record_def getint_def slice_def replicate_num)
  have t: "(4 :: int) = 2 \<or> (4 :: int) = 3 \<or> (4 :: int) = 4" and n: "(100 :: int) < 101"
    by simp_all
  have d: "decode_utf8 (slice long_title_record 12 16) = Inr [55, 0, 0, 0]"
    by (simp add: long_title_record_def decode_utf8_def slice_def)
  have ti: "decode_utf8 (drop 24 long_title_record) = Inr (replicate 100 65)"
    by (simp add: long_title_record_def decode_utf8_def replicate_num)
  have four: "length [0, 0, 1, 0 :: byte] = 4"
    by simp
  note th = title_never_read_past_record
         [OF long_title_record_length g(1) t g(2) g(3) g(4) g(5) g(6) g(7) n d ti,
          of "[0, 0, 1, 0]" "[66, 66]", unfolded four]
  from th [THEN conjunct1] th [THEN conjunct2, THEN conjunct2, THEN conjunct2] g d ti
  show ?thesis
    by (simp add: long_title_record_length long_title_channel_def lit_def rstrip_nul_def)
qed

section \<open>Decoding a whole channel list\<close>

lemma parse_loop_step:
  assumes "length r = 124"
  shows "parse_loop (pre @ r @ rest) (length pre) m =
           (case parse_dat r of
              Inl pe \<Rightarrow>
                Inl (add_context pe
                       (lit ''chunk starting at '' @ dec_int (int (length pre)) @ lit '': ''
                          @ repr_bytes r))
            | Inr ch \<Rightarrow> parse_loop (pre @ r @ rest) (length pre + 124) (m(dispno ch \<mapsto> ch)))"
  using assms by (subst parse_loop.simps) (simp add: slice_chunk)

lemma parse_loop_end: "parse_loop channel_list (length channel_list) m = Inr m"
  by (subst parse_loop.simps) simp

lemma parse_loop_records:
  assumes "\<forall>r \<in> set recs. length r = 124" and "map parse_dat recs = map Inr chans"
  shows "parse_loop (pre @ concat recs) (length pre) m
           = Inr (fold (\<lambda>ch m. m(dispno ch \<mapsto> ch)) chans m)"
  using assms
proof (induction recs arbitrary: pre m chans)
  case Nil
  then show ?case
    using parse_loop_end [of pre m] by simp
next
  case (Cons r recs)
  then obtain c cs where chans: "chans = c # cs" and c: "parse_dat r = Inr c"
    and cs: "map parse_dat recs = map Inr cs"
    by (cases chans) auto
  from Cons.prems have r: "length r = 124" and rs: "\<forall>r \<in> set recs. length r = 124"
    by simp_all
  have "parse_loop (pre @ r @ concat recs) (length pre) m
          = parse_loop ((pre @ r) @ concat recs) (length (pre @ r)) (m(dispno c \<mapsto> c))"
    using parse_loop_step [OF r, of pre "concat recs" m] c r by simp
  also have "\<dots> = Inr (fold (\<lambda>ch m. m(dispno ch \<mapsto> ch)) cs (m(dispno c \<mapsto> c)))"
    by (rule Cons.IH [OF rs cs])
  finally show ?case
    by (simp only: chans concat.simps fold.simps comp_apply)
qed

lemma fold_update_map_of:
  "fold (\<lambda>ch m. m(f ch \<mapsto> ch)) chans m = m ++ map_of (rev (map (\<lambda>c. (f c, c)) chans))"
  by (induction chans arbitrary: m) simp_all

lemma map_of_rev_last:
  "map_of (rev (map (\<lambda>c. (f c, c)) xs)) k =
     (if filter (\<lambda>c. f c = k) xs = [] then None else Some (last (filter (\<lambda>c. f c = k) xs)))"
  by (induction xs rule: rev_induct) simp_all

lemma length_concat_records:
  "\<forall>r \<in> set recs. length r = 124 \<Longrightarrow> length (concat recs) = 124 * length recs"
  by (induction recs) simp_all

lemma getint_header:
  "length hdr = 4 \<Longrightarrow> getint (hdr @ rest) 2 = getint hdr 2"
  by (simp add: getint_def slice_def)

text \<open>
  Claim C4, as stated, fails for \<open>N = 0\<close>: the buffer that consists of a header with
  count 0 and no record has 4 bytes and is rejected by the minimum-size check.
\<close>

theorem empty_channel_list_counterexample:
  "length [0, 0, 0, 0 :: byte] = 4
   \<and> getint [0, 0, 0, 0] 2 = Inr (int (length ([] :: bytes list)))
   \<and> parse_channel_list ([0, 0, 0, 0] @ concat []) =
        Inl (ParseException
               (lit ''channel list is smaller than it has to be for at least one channel (4 bytes (actual) vs. 128 bytes'')
               (list_of_str (lit ''Channel list: '' @ repr_bytes [0, 0, 0, 0])))"
  by (simp add: parse_channel_list_def getint_def slice_def eval_fmt)

text \<open>
  Claim C4, amended. For every buffer made of a 4-byte header with count \<open>N\<close>
  followed by exactly \<open>N\<close> valid 124-byte records, with \<open>N \<ge> 1\<close>,
  \<open>_parse_channel_list\<close> succeeds. The collection it returns is keyed by \<open>dispno\<close>:
  its keys are the display numbers of the records, each key holds the Channel of the
  last record in buffer order with that display number, and it has at most \<open>N\<close>
  entries, exactly \<open>N\<close> if and only if no two records share a display number.
\<close>

theorem decode_valid_buffer:
  assumes "length hdr = 4" and "getint hdr 2 = Inr (int (length recs))" and "recs \<noteq> []"
    and "\<forall>r \<in> set recs. length r = 124" and "map parse_dat recs = map Inr chans"
  shows "parse_channel_list (hdr @ concat recs) = Inr (keyed_by_dispno chans)
       \<and> dom (keyed_by_dispno chans) = set (map dispno chans)
       \<and> (\<forall>k. keyed_by_dispno chans k =
                 (if filter (\<lambda>c. dispno c = k) chans = [] then None
                  else Some (last (filter (\<lambda>c. dispno c = k) chans))))
       \<and> card (dom (keyed_by_dispno chans)) \<le> length recs
       \<and> (card (dom (keyed_by_dispno chans)) = length recs \<longleftrightarrow> distinct (map dispno chans))"
proof -
  define cl where "cl = hdr @ concat recs"
  have n: "length chans = length recs"
    using assms(5) by (metis length_map)
  have len: "length cl = 4 + 124 * length recs"
    using assms(1,4) by (simp add: cl_def length_concat_records)
  from assms(3) have pos: "1 \<le> length recs"
    by (cases recs) simp_all
  have big: "\<not> length cl < 128"
    using len pos by arith
  have m: "(int (length cl) - 4) mod 124 = 0"
    by (simp add: len)
  have q: "(of_int (int (length cl) - 4) / 124 :: rat) = of_int (int (length recs))"
    by (simp add: len)
  have g: "getint cl 2 = Inr (int (length recs))"
    using assms(1,2) by (simp add: cl_def getint_header)
  have loop: "parse_loop cl 4 Map.empty = Inr (keyed_by_dispno chans)"
    using parse_loop_records [OF assms(4,5), of hdr Map.empty] assms(1)
    by (simp add: cl_def fold_update_map_of keyed_by_dispno_def)
  have "parse_channel_list cl = Inr (keyed_by_dispno chans)"
    unfolding parse_channel_list_def using big m g loop by (simp only: q if_False on_ok_Inr Let_def simp_thms)
  then have res: "parse_channel_list (hdr @ concat recs) = Inr (keyed_by_dispno chans)"
    by (simp only: cl_def)
  have d: "dom (keyed_by_dispno chans) = set (map dispno chans)"
    by (force simp add: keyed_by_dispno_def dom_map_of_conv_image_fst)
  have c1: "card (set (map dispno chans)) \<le> length recs"
    using card_length [of "map dispno chans"] n by simp
  have c2: "card (set (map dispno chans)) = length recs \<longleftrightarrow> distinct (map dispno chans)"
    using card_distinct [of "map dispno chans"] distinct_card [of "map dispno chans"] n by auto
  show ?thesis
    using res d c1 c2 by (simp add: keyed_by_dispno_def map_of_rev_last)
qed


theorem decode_valid_buffer_witness:
  "length [0, 0, 2, 0 :: byte] = 4
   \<and> getint [0, 0, 2, 0] 2 = Inr (int (length [scenario_record, long_title_record]))
   \<and> [scenario_record, long_title_record] \<noteq> []
   \<and> length scenario_record = 124 \<and> length long_title_record = 124
   \<and> map parse_dat [scenario_record, long_title_record]
        = map Inr [scenario_channel, long_title_channel]
   \<and> parse_channel_list ([0, 0, 2, 0] @ concat [scenario_record, long_title_record])
        = Inr (keyed_by_dispno [scenario_channel, long_title_channel])
   \<and> dom (keyed_by_dispno [scenario_channel, long_title_channel]) = {PyStr (lit ''7'')}
   \<and> keyed_by_dispno [scenario_channel, long_title_channel] (PyStr (lit ''7''))
        = Some long_title_channel
   \<and> card (dom (keyed_by_dispno [scenario_channel, long_title_channel])) = 1"
proof -
  have h: "length [0, 0, 2, 0 :: byte] = 4"
    by simp
  have g: "getint [0, 0, 2, 0] 2 = Inr (int (length [scenario_record, long_title_record]))"
    by (simp add: getint_def slice_def)
  have ne: "[scenario_record, long_title_record] \<noteq> []"
    by simp
  have l: "\<forall>r \<in> set [scenario_record, long_title_record]. length r = 124"
    by (simp add: scenario_record_length long_title_record_length)
  have p: "map parse_dat [scenario_record, long_title_record]
             = map Inr [scenario_channel, long_title_channel]"
    by (simp add: parse_dat_scenario parse_dat_long_title)
  note th = decode_valid_buffer [OF h g ne l p]
  have k: "keyed_by_dispno [scenario_channel, long_title_channel] (PyStr (lit ''7''))
             = Some long_title_channel"
    using th [THEN conjunct2, THEN conjunct2, THEN conjunct1]
    by (simp add: scenario_channel_def long_title_channel_def)
  have d: "dom (keyed_by_dispno [scenario_channel, long_title_channel]) = {PyStr (lit ''7'')}"
    using th [THEN conjunct2, THEN conjunct1]
    by (simp add: scenario_channel_def long_title_channel_def)
  from th [THEN conjunct1] h g l p k d show ?thesis
    by simp
qed

section \<open>Channels built from XML\<close>

lemmas eval_xml = parse_xml_def first_value_def lit_def

lemma parse_xml_scenario_doc: "parse_xml scenario_doc = Inr scenario_channel_from_xml"
  by (simp add: scenario_doc_def scenario_channel_from_xml_def eval_xml)

text \<open>
  Claim C5, as stated, fails in one point: a field is not always a string. When the
  first child of the element is itself an element, \<open>nodeValue\<close> is \<open>None\<close>, and
  \<open>None\<close> is what the Channel stores.
\<close>

theorem xml_field_none_counterexample:
  "parse_xml nested_doc =
     Inr \<lparr> ch_type = PyNone, major_ch = PyStr (lit ''7''), minor_ch = PyStr (lit ''0''),
           ptc = PyStr (lit ''33''), prog_num = PyStr (lit ''1''), dispno = PyStr (lit ''7''),
           title = PyStr [] \<rparr>"
  by (simp add: nested_doc_def eval_xml)

lemma nodeValue_not_int: "nodeValue n \<noteq> PyInt i"
  by (cases n) simp_all

lemma first_value_not_int: "first_value rootn name = Inr v \<Longrightarrow> v \<noteq> PyInt i"
  by (auto simp add: first_value_def on_ok_def nodeValue_not_int split: sum.splits)

lemma parse_xml_Inr:
  assumes "parse_xml rootn = Inr c"
  shows "first_value rootn (lit ''ChType'') = Inr (ch_type c)
       \<and> first_value rootn (lit ''MajorCh'') = Inr (major_ch c)
       \<and> first_value rootn (lit ''MinorCh'') = Inr (minor_ch c)
       \<and> first_value rootn (lit ''PTC'') = Inr (ptc c)
       \<and> first_value rootn (lit ''ProgNum'') = Inr (prog_num c)
       \<and> dispno c = major_ch c \<and> title c = PyStr []"
  using assms by (auto simp add: parse_xml_def on_ok_def split: sum.splits)

lemma getint_range: "getint buf off = Inr v \<Longrightarrow> 0 \<le> v \<and> v \<le> 65535"
proof -
  assume a: "getint buf off = Inr v"
  then obtain b0 b1 where v: "v = uint (b0 :: byte) + 256 * uint (b1 :: byte)"
    by (auto simp add: getint_def split: list.splits)
  have "uint b0 < 256" "uint b1 < 256" "0 \<le> uint b0" "0 \<le> uint b1"
    using uint_bounded [of b0] uint_bounded [of b1] by simp_all
  with v show ?thesis
    by simp
qed

lemma parse_dat_Inr:
  assumes "parse_dat buf = Inr c"
  shows "\<exists>a b p n. (ch_type c = PyStr (lit ''CDTV'') \<or> ch_type c = PyStr (lit ''CATV'')
                    \<or> ch_type c = PyStr (lit ''DTV''))
           \<and> major_ch c = PyInt a \<and> minor_ch c = PyInt b \<and> ptc c = PyInt p
           \<and> prog_num c = PyInt n"
  using assms by (auto simp add: parse_dat_def on_ok_def split: sum.splits if_splits)

lemma as_xml_after_parse_dat:
  assumes "parse_dat buf = Inr c"
  shows "\<exists>x. as_xml c = Inr x"
proof -
  from parse_dat_Inr [OF assms] obtain a b p n s where "ch_type c = PyStr s"
    "major_ch c = PyInt a" "minor_ch c = PyInt b" "ptc c = PyInt p" "prog_num c = PyInt n"
    by auto
  then show ?thesis
    by (simp add: as_xml_def escape_val_def fmt_d_def)
qed

text \<open>
  Claim C5, amended. For every Channel constructed via the XML path, each of the
  fields \<open>ch_type\<close>, \<open>major_ch\<close>, \<open>minor_ch\<close>, \<open>ptc\<close>, \<open>prog_num\<close> is the unconverted
  \<open>nodeValue\<close> of the first child of the first element with the field's tag (the text
  when that child is a text node, \<open>None\<close> when it is an element) and never an
  integer; \<open>dispno\<close> equals \<open>major_ch\<close> and \<open>title\<close> is empty. Consequently \<open>as_xml\<close>
  fails on every such Channel (\<open>TypeError\<close> from \<open>%d\<close> when \<open>ch_type\<close> is a string,
  \<open>AttributeError\<close> from \<open>escape\<close> otherwise), whereas \<open>as_xml\<close> succeeds on every
  Channel that the binary path constructs.
\<close>

theorem xml_fields_unconverted:
  "(parse_xml rootn = Inr c \<longrightarrow>
      first_value rootn (lit ''ChType'') = Inr (ch_type c)
      \<and> first_value rootn (lit ''MajorCh'') = Inr (major_ch c)
      \<and> first_value rootn (lit ''MinorCh'') = Inr (minor_ch c)
      \<and> first_value rootn (lit ''PTC'') = Inr (ptc c)
      \<and> first_value rootn (lit ''ProgNum'') = Inr (prog_num c)
      \<and> (\<forall>i. ch_type c \<noteq> PyInt i \<and> major_ch c \<noteq> PyInt i \<and> minor_ch c \<noteq> PyInt i
               \<and> ptc c \<noteq> PyInt i \<and> prog_num c \<noteq> PyInt i)
      \<and> dispno c = major_ch c \<and> title c = PyStr []
      \<and> as_xml c = Inl (case ch_type c of PyStr s \<Rightarrow> TypeError | _ \<Rightarrow> AttributeError))
   \<and> (parse_dat buf = Inr c' \<longrightarrow> (\<exists>x. as_xml c' = Inr x))"
proof (intro conjI impI)
  assume a: "parse_xml rootn = Inr c"
  note f = parse_xml_Inr [OF a]
  from f show "first_value rootn (lit ''ChType'') = Inr (ch_type c)"
    and "first_value rootn (lit ''MajorCh'') = Inr (major_ch c)"
    and "first_value rootn (lit ''MinorCh'') = Inr (minor_ch c)"
    and "first_value rootn (lit ''PTC'') = Inr (ptc c)"
    and "first_value rootn (lit ''ProgNum'') = Inr (prog_num c)"
    and "dispno c = major_ch c" and "title c = PyStr []"
    by simp_all
  from f show ni: "\<forall>i. ch_type c \<noteq> PyInt i \<and> major_ch c \<noteq> PyInt i \<and> minor_ch c \<noteq> PyInt i
               \<and> ptc c \<noteq> PyInt i \<and> prog_num c \<noteq> PyInt i"
    by (auto dest: first_value_not_int)
  then have "fmt_d (major_ch c) = Inl TypeError"
    by (cases "major_ch c") (auto simp add: fmt_d_def)
  with ni show "as_xml c = Inl (case ch_type c of PyStr s \<Rightarrow> TypeError | _ \<Rightarrow> AttributeError)"
    by (cases "ch_type c") (auto simp add: as_xml_def escape_val_def)
next
  assume "parse_dat buf = Inr c'"
  then show "\<exists>x. as_xml c' = Inr x"
    by (rule as_xml_after_parse_dat)
qed


theorem xml_fields_unconverted_witness:
  "parse_xml scenario_doc = Inr scenario_channel_from_xml
   \<and> first_value scenario_doc (lit ''MajorCh'') = Inr (PyStr (lit ''7''))
   \<and> major_ch scenario_channel_from_xml = PyStr (lit ''7'')
   \<and> dispno scenario_channel_from_xml = PyStr (lit ''7'')
   \<and> title scenario_channel_from_xml = PyStr []
   \<and> as_xml scenario_channel_from_xml = Inl TypeError
   \<and> parse_dat scenario_record = Inr scenario_channel
   \<and> (\<exists>x. as_xml scenario_channel = Inr x)"
proof -
  note th = xml_fields_unconverted [of scenario_doc scenario_channel_from_xml
                                       scenario_record scenario_channel]
  from th parse_xml_scenario_doc parse_dat_scenario show ?thesis
    by (simp add: scenario_channel_from_xml_def)
qed

section \<open>Encoding a Channel as XML\<close>

lemma replace_char_append:
  "replace_char old new (a @ b) = replace_char old new a @ replace_char old new b"
  by (simp add: replace_char_def)

lemma replace_char_Cons:
  "replace_char old new (c # s) = (if c = old then new else [c]) @ replace_char old new s"
  by (simp add: replace_char_def)

lemma replace_char_Nil: "replace_char old new [] = []"
  by (simp add: replace_char_def)

lemma escape_Nil: "escape [] = []"
  by (simp add: escape_def replace_char_def)

lemma escape_Cons: "escape (c # s) = escape_char c @ escape s"
  by (simp add: escape_def escape_char_def replace_char_Cons replace_char_append
      replace_char_Nil lit_def)

lemma escape_concat: "escape s = concat (map escape_char s)"
  by (induction s) (simp_all add: escape_Nil escape_Cons)

lemma emit_text_empty: "emit_text [] ts = ts"
  by (simp add: emit_text_def)

lemma emit_text_Nil: "map_option (emit_text []) x = x"
  by (cases x) (simp_all add: emit_text_def)

lemma lex_escaped:
  "lex (InText acc) (escape s @ 60 # rest) = map_option (emit_text (acc @ s)) (lex TagStart rest)"
proof (induction s arbitrary: acc)
  case Nil
  show ?case
    by (simp add: escape_Nil)
next
  case (Cons c s)
  have "lex (InText acc) (escape_char c @ escape s @ 60 # rest)
          = lex (InText (acc @ [c])) (escape s @ 60 # rest)"
    by (simp add: escape_char_def lit_def name_char_def name_start_def entity_def)
  then show ?case
    by (simp add: escape_Cons Cons.IH)
qed

lemma dec_nat_digits: "list_all is_digit (dec_nat n)"
proof (induction n rule: dec_nat.induct)
  case (1 n)
  show ?case
  proof (cases "n < 10")
    case True
    then show ?thesis
      by (simp add: dec_nat_small digit_char_def is_digit_def)
  next
    case False
    have "n mod 10 < 10"
      by simp
    then have "is_digit (digit_char (n mod 10))"
      unfolding digit_char_def is_digit_def by simp
    with False 1 show ?thesis
      by (simp add: dec_nat_big)
  qed
qed

lemma dec_nat_not_Nil: "dec_nat n \<noteq> []"
  by (subst dec_nat.simps) simp

lemma escape_digits: "list_all is_digit t \<Longrightarrow> escape t = t"
  by (induction t) (auto simp add: escape_Nil escape_Cons escape_char_def is_digit_def)

lemma escape_dec_int: "escape (dec_int i) = dec_int i"
  using dec_nat_digits
  by (simp add: dec_int_def escape_Cons escape_char_def escape_digits)

lemma dec_int_not_Nil: "dec_int i \<noteq> []"
  by (simp add: dec_int_def dec_nat_not_Nil)

lemma lex_dec_int:
  "lex (InText []) (dec_int i @ 60 # rest) = map_option ((#) (Chars (dec_int i))) (lex TagStart rest)"
proof -
  have "lex (InText []) (escape (dec_int i) @ 60 # rest)
          = map_option (emit_text ([] @ dec_int i)) (lex TagStart rest)"
    by (rule lex_escaped)
  moreover have "emit_text (dec_int i) = (#) (Chars (dec_int i))"
    by (rule ext) (simp add: emit_text_def dec_int_not_Nil)
  ultimately show ?thesis
    by (simp add: escape_dec_int)
qed


lemma xml_document_body: "xml_document t a b p n = xml_decl @ xml_body t a b p n"
  by (simp add: xml_document_def xml_body_def xml_decl_def lit_def)

lemma normalize_Cons_other: "c \<noteq> 13 \<Longrightarrow> normalize_newlines (c # cs) = c # normalize_newlines cs"
  by (cases cs) simp_all

lemma normalize_cr_other:
  "cs = [] \<or> hd cs \<noteq> 10 \<Longrightarrow> normalize_newlines (13 # cs) = 10 # normalize_newlines cs"
  by (cases cs) auto

lemma normalize_plain_append:
  "13 \<notin> set ys \<Longrightarrow> normalize_newlines (ys @ zs) = ys @ normalize_newlines zs"
  by (induction ys) (simp_all add: normalize_Cons_other)

lemma normalize_plain: "13 \<notin> set ys \<Longrightarrow> normalize_newlines ys = ys"
  using normalize_plain_append [of ys "[]"] by simp

lemma normalize_append:
  "zs = [] \<or> hd zs \<noteq> 10 \<Longrightarrow>
     normalize_newlines (ys @ zs) = normalize_newlines ys @ normalize_newlines zs"
proof (induction ys rule: normalize_newlines.induct)
  case 1
  show ?case by simp
next
  case (2 c)
  then show ?case
    by (cases "c = 13") (simp_all add: normalize_cr_other normalize_Cons_other)
next
  case (3 c d cs)
  then show ?case
    by simp
qed

lemma escape_char_plain: "c \<noteq> 13 \<Longrightarrow> 13 \<notin> set (escape_char c)"
  by (simp add: escape_char_def lit_def)

lemma hd_escape: "hd (escape (d # cs)) = 10 \<longleftrightarrow> d = 10"
  by (simp add: escape_Cons escape_char_def lit_def)

lemma escape_not_Nil: "escape (d # cs) \<noteq> []"
  by (simp add: escape_Cons escape_char_def lit_def)

lemma normalize_escape: "normalize_newlines (escape s) = escape (normalize_newlines s)"
proof (induction s rule: normalize_newlines.induct)
  case 1
  show ?case by (simp add: escape_Nil)
next
  case (2 c)
  show ?case
  proof (cases "c = 13")
    case True
    then show ?thesis
      by (simp add: escape_Cons escape_Nil escape_char_def)
  next
    case False
    with escape_char_plain [of c] show ?thesis
      by (simp add: escape_Cons escape_Nil normalize_plain)
  qed
next
  case (3 c d cs)
  show ?case
  proof (cases "c = 13")
    case False
    have "normalize_newlines (escape (c # d # cs))
            = escape_char c @ normalize_newlines (escape (d # cs))"
      using escape_char_plain [OF False]
      by (simp add: escape_Cons [of c] normalize_plain_append)
    with False 3 show ?thesis
      by (simp add: escape_Cons [of c])
  next
    case True
    note c = True
    show ?thesis
    proof (cases "d = 10")
      case True
      have "escape (13 # 10 # cs) = 13 # 10 # escape cs"
        by (simp add: escape_Cons escape_char_def)
      with c True 3 show ?thesis
        by (simp add: escape_Cons [of 10] escape_char_def)
    next
      case False
      have e: "escape (13 # d # cs) = 13 # escape (d # cs)"
        by (simp add: escape_Cons [of 13] escape_char_def)
      have "normalize_newlines (13 # escape (d # cs)) = 10 # normalize_newlines (escape (d # cs))"
        using False by (intro normalize_cr_other) (simp add: hd_escape)
      with c False 3 e show ?thesis
        by (simp add: escape_Cons [of 10] escape_char_def)
    qed
  qed
qed

lemma dec_int_no_cr: "13 \<notin> set (dec_int i)"
proof -
  have "13 \<notin> set (dec_nat k)" for k
    using dec_nat_digits [of k] by (auto simp add: list_all_iff is_digit_def)
  then show ?thesis
    by (simp add: dec_int_def)
qed

lemma normalize_body:
  "normalize_newlines (xml_body (escape s) (dec_int a) (dec_int b) (dec_int p) (dec_int n))
     = xml_body (escape (normalize_newlines s)) (dec_int a) (dec_int b) (dec_int p) (dec_int n)"
proof -
  define r where "r = lit ''</ChType><MajorCh>'' @ dec_int a
       @ lit ''</MajorCh><MinorCh>'' @ dec_int b
       @ lit ''</MinorCh><PTC>'' @ dec_int p
       @ lit ''</PTC><ProgNum>'' @ dec_int n
       @ lit ''</ProgNum></Channel>''"
  have l: "13 \<notin> set (lit ''<Channel><ChType>'')"
    by (simp add: lit_def)
  have r1: "13 \<notin> set r"
    by (simp add: r_def dec_int_no_cr) (simp add: lit_def)
  have r2: "r = [] \<or> hd r \<noteq> 10"
    by (simp add: r_def lit_def)
  have "normalize_newlines (lit ''<Channel><ChType>'' @ escape s @ r)
          = lit ''<Channel><ChType>'' @ normalize_newlines (escape s @ r)"
    using l by (rule normalize_plain_append)
  also have "normalize_newlines (escape s @ r) = normalize_newlines (escape s) @ normalize_newlines r"
    using r2 by (rule normalize_append)
  also have "normalize_newlines r = r"
    using r1 by (rule normalize_plain)
  finally show ?thesis
    by (simp add: xml_body_def r_def normalize_escape)
qed

lemma lex_body:
  "lex (InText []) (xml_body (escape s) (dec_int a) (dec_int b) (dec_int p) (dec_int n)) =
     Some (Open (lit ''Channel'') # Open (lit ''ChType'')
           # emit_text s
               [Close (lit ''ChType''),
                Open (lit ''MajorCh''), Chars (dec_int a), Close (lit ''MajorCh''),
                Open (lit ''MinorCh''), Chars (dec_int b), Close (lit ''MinorCh''),
                Open (lit ''PTC''), Chars (dec_int p), Close (lit ''PTC''),
                Open (lit ''ProgNum''), Chars (dec_int n), Close (lit ''ProgNum''),
                Close (lit ''Channel'')])"
  by (simp add: xml_body_def lit_def name_char_def name_start_def emit_text_Nil emit_text_empty
      lex_escaped [where acc = "[]", simplified] lex_dec_int)


lemma build_tokens:
  "build [] None
     (Open (lit ''Channel'') # Open (lit ''ChType'')
      # emit_text s
          [Close (lit ''ChType''),
           Open (lit ''MajorCh''), Chars a, Close (lit ''MajorCh''),
           Open (lit ''MinorCh''), Chars b, Close (lit ''MinorCh''),
           Open (lit ''PTC''), Chars p, Close (lit ''PTC''),
           Open (lit ''ProgNum''), Chars n, Close (lit ''ProgNum''),
           Close (lit ''Channel'')])
     = Some (channel_tree s a b p n)"
  by (simp add: emit_text_def channel_tree_def lit_def)

lemma is_digit_xml_char: "is_digit c \<Longrightarrow> xml_char c"
  by (simp add: is_digit_def xml_char_def)

lemma dec_int_xml_char: "list_all xml_char (dec_int i)"
proof -
  have "list_all xml_char (dec_nat k)" for k
    using dec_nat_digits [of k] by (simp add: list_all_iff is_digit_xml_char)
  then show ?thesis
    by (simp add: dec_int_def xml_char_def)
qed

lemma escape_xml_char: "list_all xml_char s \<Longrightarrow> list_all xml_char (escape s)"
  by (induction s) (auto simp add: escape_Nil escape_Cons escape_char_def lit_def xml_char_def)

lemma xml_document_chars:
  assumes "list_all xml_char s"
  shows "list_all xml_char
           (xml_document (escape s) (dec_int a) (dec_int b) (dec_int p) (dec_int n))"
proof -
  have "list_all xml_char (lit ''<?xml version=\"1.0\" encoding=\"UTF-8\" ?><Channel><ChType>'')"
    "list_all xml_char (lit ''</ChType><MajorCh>'')" "list_all xml_char (lit ''</MajorCh><MinorCh>'')"
    "list_all xml_char (lit ''</MinorCh><PTC>'')" "list_all xml_char (lit ''</PTC><ProgNum>'')"
    "list_all xml_char (lit ''</ProgNum></Channel>'')"
    by (simp_all add: lit_def xml_char_def)
  with assms show ?thesis
    by (simp add: xml_document_def escape_xml_char dec_int_xml_char)
qed

lemma parse_xml_document:
  assumes "list_all xml_char s"
  shows "parseString (xml_document (escape s) (dec_int a) (dec_int b) (dec_int p) (dec_int n))
           = Some (channel_tree (normalize_newlines s) (dec_int a) (dec_int b) (dec_int p) (dec_int n))"
proof -
  let ?d = "xml_document (escape s) (dec_int a) (dec_int b) (dec_int p) (dec_int n)"
  let ?b = "xml_body (escape s) (dec_int a) (dec_int b) (dec_int p) (dec_int n)"
  have d: "?d = xml_decl @ ?b"
    by (rule xml_document_body)
  have c: "list_all xml_char (xml_decl @ ?b)"
    using xml_document_chars [OF assms, of a b p n] by (simp only: d)
  have t: "take (length xml_decl) (xml_decl @ ?b) = xml_decl"
    "drop (length xml_decl) (xml_decl @ ?b) = ?b"
    by simp_all
  show ?thesis
    unfolding d parseString_def
    by (simp only: c t if_True normalize_body lex_body option.case build_tokens simp_thms)
qed


lemma nat_of_digits_snoc: "nat_of_digits (ds @ [c]) = 10 * nat_of_digits ds + (c - 48)"
  by (simp add: nat_of_digits_def)

lemma nat_of_digits_dec_nat: "nat_of_digits (dec_nat n) = n"
proof (induction n rule: dec_nat.induct)
  case (1 n)
  show ?case
  proof (cases "n < 10")
    case True
    then show ?thesis
      by (simp add: dec_nat_small digit_char_def nat_of_digits_def)
  next
    case False
    have "n mod 10 < 10"
      by simp
    then have "digit_char (n mod 10) - 48 = n mod 10"
      unfolding digit_char_def by simp
    with False 1 show ?thesis
      by (simp add: dec_nat_big nat_of_digits_snoc)
  qed
qed

lemma hd_dec_nat: "hd (dec_nat n) = 48 \<longleftrightarrow> n = 0"
proof (induction n rule: dec_nat.induct)
  case (1 n)
  show ?case
  proof (cases "n < 10")
    case True
    then show ?thesis
      by (simp add: dec_nat_small digit_char_def)
  next
    case False
    then have "n div 10 \<noteq> 0"
      by simp
    with False 1 show ?thesis
      by (simp add: dec_nat_big dec_nat_not_Nil)
  qed
qed

lemma dec_nat_zero: "dec_nat n = [48] \<longleftrightarrow> n = 0"
proof
  assume "dec_nat n = [48]"
  then have "hd (dec_nat n) = 48"
    by simp
  then show "n = 0"
    by (simp add: hd_dec_nat)
next
  assume "n = 0"
  then show "dec_nat n = [48]"
    by (simp add: dec_nat_small digit_char_def)
qed

lemma canonical_dec_nat: "canonical_digits (dec_nat n)"
  unfolding canonical_digits_def
  by (auto simp add: dec_nat_not_Nil dec_nat_digits hd_dec_nat dec_nat_zero)

lemma hd_dec_nat_not_minus: "hd (dec_nat n) \<noteq> 45"
proof -
  have "list_all is_digit (dec_nat n)" and "dec_nat n \<noteq> []"
    by (rule dec_nat_digits, rule dec_nat_not_Nil)
  then have "is_digit (hd (dec_nat n))"
    by (cases "dec_nat n") simp_all
  then show ?thesis
    by (auto simp add: is_digit_def)
qed

lemma value_of_decimal_dec_int: "value_of_decimal (dec_int i) = Some i"
proof (cases "i < 0")
  case True
  then have "nat (- i) \<noteq> 0"
    by simp
  then have "dec_nat (nat (- i)) \<noteq> [48]"
    by (simp add: dec_nat_zero)
  with True show ?thesis
    by (simp add: value_of_decimal_def dec_int_def canonical_dec_nat nat_of_digits_dec_nat)
next
  case False
  then show ?thesis
    by (simp add: value_of_decimal_def dec_int_def canonical_dec_nat nat_of_digits_dec_nat
        hd_dec_nat_not_minus dec_nat_not_Nil)
qed

lemma as_xml_ints:
  "as_xml \<lparr> ch_type = PyStr s, major_ch = PyInt a, minor_ch = PyInt b, ptc = PyInt p,
            prog_num = PyInt n, dispno = d, title = t \<rparr>
     = Inr (xml_document (escape s) (dec_int a) (dec_int b) (dec_int p) (dec_int n))"
  by (simp add: as_xml_def escape_val_def fmt_d_def xml_document_def)

lemma escape_keeps_illegal:
  assumes "\<not> list_all xml_char s"
  shows "\<not> list_all xml_char (escape s)"
  using assms
  by (induction s) (auto simp add: escape_Nil escape_Cons escape_char_def xml_char_def)

lemma parse_illegal_document:
  assumes "\<not> list_all xml_char s"
  shows "parseString (xml_document (escape s) a b p n) = None"
  using escape_keeps_illegal [OF assms]
  by (simp add: parseString_def xml_document_def)

text \<open>
  Claim C9, as stated, fails in its last part: escaping \<open>&\<close>, \<open><\<close> and \<open>>\<close> does not
  make the output well-formed for every \<open>ch_type\<close> string. A \<open>ch_type\<close> that holds the
  character U+0000, which no XML document may contain, is copied into the output as it
  is, and the document is rejected by the parser.
\<close>

theorem nul_ch_type_counterexample:
  "as_xml nul_type_channel = Inr (xml_document [0] (lit ''7'') (lit ''0'') (lit ''33'') (lit ''1''))
   \<and> \<not> xml_char 0
   \<and> parseString (xml_document [0] (lit ''7'') (lit ''0'') (lit ''33'') (lit ''1'')) = None"
proof -
  have e: "escape [0] = [0]"
    by (simp add: escape_Cons escape_Nil escape_char_def)
  have d: "dec_int 7 = lit ''7''" "dec_int 0 = lit ''0''" "dec_int 33 = lit ''33''"
    "dec_int 1 = lit ''1''"
    by (simp_all add: eval_fmt)
  have "as_xml nul_type_channel
          = Inr (xml_document (escape [0]) (dec_int 7) (dec_int 0) (dec_int 33) (dec_int 1))"
    unfolding nul_type_channel_def by (rule as_xml_ints)
  moreover have "\<not> xml_char 0"
    by (simp add: xml_char_def)
  moreover have "parseString (xml_document [0] (lit ''7'') (lit ''0'') (lit ''33'') (lit ''1'')) = None"
    by (simp add: parseString_def xml_document_def xml_char_def)
  ultimately show ?thesis
    by (simp only: e d simp_thms)
qed

text \<open>
  Claim C9, amended. For every Channel whose \<open>ch_type\<close> is a string and whose
  \<open>major_ch\<close>, \<open>minor_ch\<close>, \<open>ptc\<close>, \<open>prog_num\<close> are integers, \<open>as_xml\<close> returns exactly
  the fixed-shape document, with every \<open>&\<close>, \<open><\<close>, \<open>>\<close> of \<open>ch_type\<close> replaced by
  \<open>&amp;\<close>, \<open>&lt;\<close>, \<open>&gt;\<close> and every other character kept, and with each integer as
  its unpadded decimal numeral. The document is well-formed exactly when every
  character of \<open>ch_type\<close> is a character that XML allows. It then denotes the five
  elements, the four numerals as the texts of theirs, and as the text of \<open>ChType\<close> the
  string \<open>ch_type\<close> with its line ends normalised (CR LF and CR read as LF; an empty
  \<open>ch_type\<close> leaves the element without a text node): \<open>ch_type\<close> itself when it holds
  no CR.
\<close>

theorem as_xml_document:
  "as_xml \<lparr> ch_type = PyStr s, major_ch = PyInt a, minor_ch = PyInt b, ptc = PyInt p,
            prog_num = PyInt n, dispno = d, title = t \<rparr>
     = Inr (xml_document (escape s) (dec_int a) (dec_int b) (dec_int p) (dec_int n))
   \<and> escape s = concat (map escape_char s)
   \<and> value_of_decimal (dec_int a) = Some a \<and> value_of_decimal (dec_int b) = Some b
   \<and> value_of_decimal (dec_int p) = Some p \<and> value_of_decimal (dec_int n) = Some n
   \<and> (list_all xml_char s \<longrightarrow>
        parseString (xml_document (escape s) (dec_int a) (dec_int b) (dec_int p) (dec_int n))
          = Some (channel_tree (normalize_newlines s)
                    (dec_int a) (dec_int b) (dec_int p) (dec_int n)))
   \<and> (13 \<notin> set s \<longrightarrow> normalize_newlines s = s)
   \<and> (\<not> list_all xml_char s \<longrightarrow>
        parseString (xml_document (escape s) (dec_int a) (dec_int b) (dec_int p) (dec_int n))
          = None)"
  using as_xml_ints [of s a b p n d t] escape_concat [of s]
    value_of_decimal_dec_int [of a] value_of_decimal_dec_int [of b]
    value_of_decimal_dec_int [of p] value_of_decimal_dec_int [of n]
    parse_xml_document [of s a b p n] normalize_plain [of s]
    parse_illegal_document [of s "dec_int a" "dec_int b" "dec_int p" "dec_int n"]
  by blast

theorem as_xml_document_witness:
  "list_all xml_char (lit ''A&B<C>'' @ [13, 10])
   \<and> as_xml \<lparr> ch_type = PyStr (lit ''A&B<C>'' @ [13, 10]), major_ch = PyInt 7,
               minor_ch = PyInt 0, ptc = PyInt 33, prog_num = PyInt (- 1),
               dispno = PyStr (lit ''7''), title = PyStr [] \<rparr>
       = Inr (xml_document (lit ''A&amp;B&lt;C&gt;'' @ [13, 10])
                (lit ''7'') (lit ''0'') (lit ''33'') (lit ''-1''))
   \<and> value_of_decimal (lit ''-1'') = Some (- 1)
   \<and> parseString
         (xml_document (lit ''A&amp;B&lt;C&gt;'' @ [13, 10])
            (lit ''7'') (lit ''0'') (lit ''33'') (lit ''-1''))
       = Some (channel_tree (lit ''A&B<C>'' @ [10]) (lit ''7'') (lit ''0'') (lit ''33'') (lit ''-1''))"
proof -
  have c: "list_all xml_char (lit ''A&B<C>'' @ [13, 10])"
    by (simp add: lit_def xml_char_def)
  have e: "escape (lit ''A&B<C>'' @ [13, 10]) = lit ''A&amp;B&lt;C&gt;'' @ [13, 10]"
    by (simp add: lit_def escape_Cons escape_Nil escape_char_def)
  have m: "normalize_newlines (lit ''A&B<C>'' @ [13, 10]) = lit ''A&B<C>'' @ [10]"
    by (simp add: lit_def)
  have d: "dec_int 7 = lit ''7''" "dec_int 0 = lit ''0''" "dec_int 33 = lit ''33''"
    "dec_int (- 1) = lit ''-1''"
    by (simp_all add: eval_fmt)
  note th = as_xml_document [of "lit ''A&B<C>'' @ [13, 10]" 7 0 33 "- 1" "PyStr (lit ''7'')"
                             "PyStr []", unfolded e d m]
  from th c show ?thesis
    by blast
qed

section \<open>From a binary record to XML and back\<close>

lemma parse_xml_channel_tree:
  assumes "t \<noteq> []"
  shows "parse_xml (channel_tree t a b p n) =
           Inr \<lparr> ch_type = PyStr t, major_ch = PyStr a, minor_ch = PyStr b, ptc = PyStr p,
                 prog_num = PyStr n, dispno = PyStr a, title = PyStr [] \<rparr>"
  using assms by (simp add: channel_tree_def eval_xml)

lemma as_xml_scenario: "as_xml scenario_channel = Inr scenario_xml"
proof -
  have e: "escape (lit ''CDTV'') = lit ''CDTV''"
    by (simp add: lit_def escape_Cons escape_Nil escape_char_def)
  have d: "dec_int 7 = lit ''7''" "dec_int 0 = lit ''0''" "dec_int 33 = lit ''33''"
    "dec_int 1 = lit ''1''"
    by (simp_all add: eval_fmt)
  show ?thesis
    unfolding scenario_channel_def scenario_xml_def
    using as_xml_ints [of "lit ''CDTV''" 7 0 33 1] by (simp only: e d)
qed

lemma parseString_scenario: "parseString scenario_xml = Some scenario_doc"
proof -
  have e: "escape (lit ''CDTV'') = lit ''CDTV''"
    by (simp add: lit_def escape_Cons escape_Nil escape_char_def)
  have d: "dec_int 7 = lit ''7''" "dec_int 0 = lit ''0''" "dec_int 33 = lit ''33''"
    "dec_int 1 = lit ''1''"
    by (simp_all add: eval_fmt)
  have c: "list_all xml_char (lit ''CDTV'')"
    by (simp add: lit_def xml_char_def)
  have m: "normalize_newlines (lit ''CDTV'') = lit ''CDTV''"
    by (simp add: lit_def)
  have t: "channel_tree (lit ''CDTV'') (lit ''7'') (lit ''0'') (lit ''33'') (lit ''1'') = scenario_doc"
    by (simp add: channel_tree_def scenario_doc_def lit_def)
  show ?thesis
    unfolding scenario_xml_def
    using parse_xml_document [OF c, of 7 0 33 1] by (simp only: e d m t)
qed

text \<open>
  Claim C3, as stated, fails: the four numeric fields do not come back exactly. The
  binary path stores integers, the XML path stores the element texts, and the string
  \<open>7\<close> is not the integer 7.
\<close>

theorem round_trip_types_counterexample:
  "parse_dat scenario_record = Inr scenario_channel
   \<and> as_xml scenario_channel = Inr scenario_xml
   \<and> parseString scenario_xml = Some scenario_doc
   \<and> parse_xml scenario_doc = Inr scenario_channel_from_xml
   \<and> major_ch scenario_channel = PyInt 7
   \<and> major_ch scenario_channel_from_xml = PyStr (lit ''7'')
   \<and> major_ch scenario_channel_from_xml \<noteq> major_ch scenario_channel"
  using parse_dat_scenario as_xml_scenario parseString_scenario parse_xml_scenario_doc
  by (simp add: scenario_channel_def scenario_channel_from_xml_def)

text \<open>
  Claim C3, amended. For every Channel constructed from a binary record, \<open>as_xml\<close>
  succeeds, its output is parsed to a document, and the XML construction path applied
  to that document succeeds with a Channel that has the same \<open>ch_type\<close> and, in
  \<open>major_ch\<close>, \<open>minor_ch\<close>, \<open>ptc\<close> and \<open>prog_num\<close>, the unpadded decimal numerals (as
  strings) of the original integers; its \<open>dispno\<close> is the numeral of \<open>major_ch\<close> and
  its \<open>title\<close> is empty.
\<close>

theorem binary_xml_round_trip:
  assumes "parse_dat buf = Inr c"
  shows "\<exists>x doc c' a b p n.
           as_xml c = Inr x \<and> parseString x = Some doc \<and> parse_xml doc = Inr c'
           \<and> ch_type c' = ch_type c
           \<and> major_ch c = PyInt a \<and> major_ch c' = PyStr (dec_int a)
           \<and> minor_ch c = PyInt b \<and> minor_ch c' = PyStr (dec_int b)
           \<and> ptc c = PyInt p \<and> ptc c' = PyStr (dec_int p)
           \<and> prog_num c = PyInt n \<and> prog_num c' = PyStr (dec_int n)
           \<and> value_of_decimal (dec_int a) = Some a \<and> value_of_decimal (dec_int b) = Some b
           \<and> value_of_decimal (dec_int p) = Some p \<and> value_of_decimal (dec_int n) = Some n
           \<and> dispno c' = PyStr (dec_int a) \<and> title c' = PyStr []"
proof -
  from parse_dat_Inr [OF assms] obtain a b p n where
    t: "ch_type c = PyStr (lit ''CDTV'') \<or> ch_type c = PyStr (lit ''CATV'')
        \<or> ch_type c = PyStr (lit ''DTV'')"
    and f: "major_ch c = PyInt a" "minor_ch c = PyInt b" "ptc c = PyInt p" "prog_num c = PyInt n"
    by blast
  from t obtain s where s: "ch_type c = PyStr s" and ne: "s \<noteq> []" and ch: "list_all xml_char s"
    and m: "normalize_newlines s = s"
    by (auto simp add: lit_def xml_char_def)
  let ?x = "xml_document (escape s) (dec_int a) (dec_int b) (dec_int p) (dec_int n)"
  let ?doc = "channel_tree s (dec_int a) (dec_int b) (dec_int p) (dec_int n)"
  let ?c' = "\<lparr> ch_type = PyStr s, major_ch = PyStr (dec_int a), minor_ch = PyStr (dec_int b),
               ptc = PyStr (dec_int p), prog_num = PyStr (dec_int n),
               dispno = PyStr (dec_int a), title = PyStr [] \<rparr>"
  have "c = \<lparr> ch_type = PyStr s, major_ch = PyInt a, minor_ch = PyInt b, ptc = PyInt p,
              prog_num = PyInt n, dispno = dispno c, title = title c \<rparr>"
    using s f by simp
  then have x: "as_xml c = Inr ?x"
    using as_xml_ints [of s a b p n "dispno c" "title c"] by simp
  have d: "parseString ?x = Some ?doc"
    using parse_xml_document [OF ch, of a b p n] by (simp only: m)
  have c': "parse_xml ?doc = Inr ?c'"
    using ne by (rule parse_xml_channel_tree)
  have "as_xml c = Inr ?x \<and> parseString ?x = Some ?doc \<and> parse_xml ?doc = Inr ?c'
           \<and> ch_type ?c' = ch_type c
           \<and> major_ch c = PyInt a \<and> major_ch ?c' = PyStr (dec_int a)
           \<and> minor_ch c = PyInt b \<and> minor_ch ?c' = PyStr (dec_int b)
           \<and> ptc c = PyInt p \<and> ptc ?c' = PyStr (dec_int p)
           \<and> prog_num c = PyInt n \<and> prog_num ?c' = PyStr (dec_int n)
           \<and> value_of_decimal (dec_int a) = Some a \<and> value_of_decimal (dec_int b) = Some b
           \<and> value_of_decimal (dec_int p) = Some p \<and> value_of_decimal (dec_int n) = Some n
           \<and> dispno ?c' = PyStr (dec_int a) \<and> title ?c' = PyStr []"
    using x d c' s f by (simp add: value_of_decimal_dec_int)
  then show ?thesis
    by blast
qed

theorem binary_xml_round_trip_witness:
  "parse_dat scenario_record = Inr scenario_channel
   \<and> as_xml scenario_channel = Inr scenario_xml
   \<and> parseString scenario_xml = Some scenario_doc
   \<and> parse_xml scenario_doc = Inr scenario_channel_from_xml
   \<and> ch_type scenario_channel_from_xml = ch_type scenario_channel
   \<and> major_ch scenario_channel = PyInt 7
   \<and> major_ch scenario_channel_from_xml = PyStr (dec_int 7)
   \<and> prog_num scenario_channel = PyInt 1
   \<and> prog_num scenario_channel_from_xml = PyStr (dec_int 1)
   \<and> value_of_decimal (dec_int 7) = Some 7
   \<and> dispno scenario_channel_from_xml = PyStr (dec_int 7)
   \<and> title scenario_channel_from_xml = PyStr []"
proof -
  from binary_xml_round_trip [OF parse_dat_scenario] obtain x doc c' a b p n where
    h: "as_xml scenario_channel = Inr x" "parseString x = Some doc" "parse_xml doc = Inr c'"
      "ch_type c' = ch_type scenario_channel"
      "major_ch scenario_channel = PyInt a" "major_ch c' = PyStr (dec_int a)"
      "minor_ch scenario_channel = PyInt b" "ptc scenario_channel = PyInt p"
      "prog_num scenario_channel = PyInt n" "prog_num c' = PyStr (dec_int n)"
      "value_of_decimal (dec_int a) = Some a"
      "dispno c' = PyStr (dec_int a)" "title c' = PyStr []"
    by blast
  from h(1) have x: "x = scenario_xml"
    by (simp add: as_xml_scenario)
  with h(2) have doc: "doc = scenario_doc"
    by (simp add: parseString_scenario)
  with h(3) have c': "c' = scenario_channel_from_xml"
    by (simp add: parse_xml_scenario_doc)
  from h(5) have a: "a = 7"
    by (simp add: scenario_channel_def)
  from h(9) have n: "n = 1"
    by (simp add: scenario_channel_def)
  from h x doc c' a n parse_dat_scenario show ?thesis
    by simp
qed

end
